theory Spec2Isabelle
  imports Complex_Main "HOL-Library.AList" "HOL-Library.Sublist"
begin

section \<open>JavaScript values\<close>

text \<open>
  The node handles loosely typed values (\<^verbatim>\<open>any\<close>, credentials, parsed JSON).  They are
  modelled by their data: the two absent values \<^verbatim>\<open>undefined\<close> and \<^verbatim>\<open>null\<close>, booleans,
  numbers, strings, arrays and plain objects.  An object is an association list in
  insertion order; numbers are rationals (no NaN, no infinities).
\<close>

datatype jsval =
    JUndefined
  | JNull
  | JBool bool
  | JNum rat
  | JStr string
  | JArr "jsval list"
  | JObj "(string \<times> jsval) list"

type_synonym jsobject = "(string \<times> jsval) list"

text \<open>Truthiness, as tested by \<^verbatim>\<open>if (v)\<close> and by \<^verbatim>\<open>a || b\<close>.\<close>

fun truthy :: "jsval \<Rightarrow> bool" where
  "truthy JUndefined = False"
| "truthy JNull = False"
| "truthy (JBool b) = b"
| "truthy (JNum n) = (n \<noteq> 0)"
| "truthy (JStr s) = (s \<noteq> [])"
| "truthy (JArr xs) = True"
| "truthy (JObj kvs) = True"

text \<open>\<^verbatim>\<open>a || b\<close>\<close>

definition js_or :: "jsval \<Rightarrow> jsval \<Rightarrow> jsval" where
  "js_or a b = (if truthy a then a else b)"

text \<open>\<^verbatim>\<open>a ?? b\<close>: only \<^verbatim>\<open>undefined\<close> and \<^verbatim>\<open>null\<close> give way to \<open>b\<close>.\<close>

definition nullish_or :: "jsval \<Rightarrow> jsval \<Rightarrow> jsval" where
  "nullish_or a b = (if a = JUndefined \<or> a = JNull then b else a)"

text \<open>\<^verbatim>\<open>obj.key\<close> on a plain object: the own property, or \<^verbatim>\<open>undefined\<close>.\<close>

definition get_prop :: "jsobject \<Rightarrow> string \<Rightarrow> jsval" where
  "get_prop obj k = (case map_of obj k of None \<Rightarrow> JUndefined | Some v \<Rightarrow> v)"

text \<open>
  \<^verbatim>\<open>v?.output\<close>: \<^verbatim>\<open>undefined\<close> for \<^verbatim>\<open>undefined\<close> and \<^verbatim>\<open>null\<close> (optional chaining); booleans,
  numbers, strings and arrays have no property of that name.
\<close>

fun opt_output :: "jsval \<Rightarrow> jsval" where
  "opt_output (JObj obj) = get_prop obj ''output''"
| "opt_output v = JUndefined"

text \<open>\<^verbatim>\<open>obj.key = v\<close>: an existing key keeps its place, a new key is appended.\<close>

definition set_prop :: "jsobject \<Rightarrow> string \<Rightarrow> jsval \<Rightarrow> jsobject" where
  "set_prop obj k v = AList.update k v obj"

text \<open>
  lodash's \<^verbatim>\<open>omit(object, ...paths)\<close> for top-level keys: a copy of the object from which
  the paths are unset one after the other, the last path first.
\<close>

definition omit :: "jsobject \<Rightarrow> string list \<Rightarrow> jsobject" where
  "omit object paths = foldr AList.delete paths object"

section \<open>Errors\<close>

text \<open>
  A thrown value.  \<open>NodeOperationError\<close> is the one error the node raises itself;
  \<open>JsError\<close> is an Error object of a collaborator or of the runtime, with its message;
  \<open>Thrown\<close> is any other value that a collaborator throws or rejects with: an object
  that is no Error, a string, or \<^verbatim>\<open>undefined\<close> for a rejection without a reason.
\<close>

datatype js_error = NodeOperationError string | JsError string | Thrown jsval

text \<open>
  \<^verbatim>\<open>error.message\<close>: the message of an Error object, the \<^verbatim>\<open>message\<close> property of another
  object, \<^verbatim>\<open>undefined\<close> on a boolean, a number, a string or an array, and on \<^verbatim>\<open>undefined\<close>
  and \<^verbatim>\<open>null\<close> the TypeError of a property read, worded as Node.js words it.
\<close>

fun error_message :: "js_error \<Rightarrow> js_error + jsval" where
  "error_message (NodeOperationError m) = Inr (JStr m)"
| "error_message (JsError m) = Inr (JStr m)"
| "error_message (Thrown JUndefined) =
     Inl (JsError ''Cannot read properties of undefined (reading 'message')'')"
| "error_message (Thrown JNull) =
     Inl (JsError ''Cannot read properties of null (reading 'message')'')"
| "error_message (Thrown (JObj obj)) = Inr (get_prop obj ''message'')"
| "error_message (Thrown v) = Inr JUndefined"

section \<open>The host and the collaborators\<close>

record credentials =
  bnbRpcUrl :: jsval
  ethRpcUrl :: jsval
  solRpcUrl :: jsval
  mnemonic :: jsval

text \<open>An entry of \<^verbatim>\<open>getTools\<close>: \<^verbatim>\<open>{ tool, plugin? }\<close>; a missing plugin reads \<^verbatim>\<open>undefined\<close>.\<close>

record tool_with_plugin =
  tool :: jsval
  plugin :: jsval

text \<open>\<^verbatim>\<open>INodeExecutionData\<close>, with the two fields the node writes.\<close>

record item_result =
  json :: jsobject
  pairedItem :: "nat option"

text \<open>
  Every call the loop body makes to the host or to a collaborator, in the order of the
  calls.  Agent instances are named by the number of instances constructed before them.
\<close>

datatype event =
    GetChatModel
  | NewN8nLLM jsval
  | GetOptionalMemory
  | GetNodeParameter string nat jsval
  | GetNetworksConfig jsval
  | NewNetwork jsval
  | NewWallet jsval jsval
  | NewN8nBinkAgent nat "jsval list"
  | RegisterPlugin nat jsval
  | GetPromptInputByType nat string string
  | LoadMemoryVariables jsval
  | AgentExecute nat jsval "jsval option"
  | ConsoleLog js_error

text \<open>
  The host: what \<^verbatim>\<open>this\<close> and the imported helpers answer, each answer a value or the
  error thrown.  \<open>call\<close> answers the calls of the loop body, given the calls made before
  (the history) and the call itself, so that an answer may depend on everything that
  happened; \<open>agentExecute\<close> does the same for \<^verbatim>\<open>binkAgent.execute\<close>, whose response is an
  object, the AgentResponse.  \<open>jsonParse\<close> of n8n-workflow is a pure function that returns
  the parsed value or throws.  A call that throws is still a call made.
\<close>

record host =
  agentParameter :: string
  getInputData :: "jsval list"
  getOptionalOutputParser :: "js_error + jsval"
  getTools :: "js_error + tool_with_plugin list"
  getCredentials :: "js_error + credentials"
  continueOnFail :: bool
  SYSTEM_MESSAGE :: string
  call :: "event list \<Rightarrow> event \<Rightarrow> js_error + jsval"
  agentExecute :: "event list \<Rightarrow> nat \<Rightarrow> jsval \<Rightarrow> jsval option \<Rightarrow> js_error + jsobject"
  jsonParse :: "jsval \<Rightarrow> js_error + jsval"

section \<open>Effects: a result or an error, and the calls made\<close>

text \<open>
  A computation reads the calls made so far and returns its result, or the error it
  throws, together with the calls it made itself.
\<close>

type_synonym 'a io = "event list \<Rightarrow> (js_error + 'a) \<times> event list"

definition io_return :: "'a \<Rightarrow> 'a io" where
  "io_return x = (\<lambda>h. (Inr x, []))"

definition io_throw :: "js_error \<Rightarrow> 'a io" where
  "io_throw e = (\<lambda>h. (Inl e, []))"

definition io_bind :: "'a io \<Rightarrow> ('a \<Rightarrow> 'b io) \<Rightarrow> 'b io" where
  "io_bind m f = (\<lambda>h.
     case m h of
       (Inl e, evs) \<Rightarrow> (Inl e, evs)
     | (Inr x, evs) \<Rightarrow> (case f x (h @ evs) of (r, evs') \<Rightarrow> (r, evs @ evs')))"

definition host_call :: "host \<Rightarrow> event \<Rightarrow> jsval io" where
  "host_call hst ev = (\<lambda>h. (call hst h ev, [ev]))"

section \<open>BinkAgentNode.execute\<close>

subsection \<open>Before the loop\<close>

text \<open>Lines 280-284: \<^verbatim>\<open>RPC_URLS\<close>, the three credential fields under their chain symbols.\<close>

definition RPC_URLS :: "credentials \<Rightarrow> jsval" where
  "RPC_URLS baseCredentials = JObj
     [(''BNB'', bnbRpcUrl baseCredentials),
      (''ETH'', ethRpcUrl baseCredentials),
      (''SOL'', solRpcUrl baseCredentials)]"

text \<open>Lines 286-291: the loop that pushes every tool and every plugin field.\<close>

fun push_all :: "tool_with_plugin list \<Rightarrow> jsval list \<times> jsval list \<Rightarrow> jsval list \<times> jsval list" where
  "push_all [] (tools, plugins) = (tools, plugins)"
| "push_all (t # ts) (tools, plugins) = push_all ts (tools @ [tool t], plugins @ [plugin t])"

text \<open>Line 292: \<^verbatim>\<open>plugins.filter(plugin => plugin !== undefined)\<close>.\<close>

definition tools_and_plugins :: "tool_with_plugin list \<Rightarrow> jsval list \<times> jsval list" where
  "tools_and_plugins toolsWithPlugins =
     (case push_all toolsWithPlugins ([], []) of
        (tools, plugins) \<Rightarrow> (tools, filter (\<lambda>p. p \<noteq> JUndefined) plugins))"

text \<open>What the loop body reads from the code before it.\<close>

record prepared =
  typeAgent :: string
  outputParser :: jsval
  baseCredentials :: credentials
  tools :: "jsval list"
  plugins :: "jsval list"

subsection \<open>The body of the loop\<close>

text \<open>Lines 308-313: the first argument of \<^verbatim>\<open>new Wallet\<close>.\<close>

definition walletConfig :: "credentials \<Rightarrow> jsval" where
  "walletConfig creds = JObj
     [(''seedPhrase'',
         js_or (mnemonic creds) (JStr ''test test test test test test test test test test test test'')),
      (''index'', JNum 0)]"

fun is_new_agent :: "event \<Rightarrow> bool" where
  "is_new_agent (NewN8nBinkAgent k args) = True"
| "is_new_agent ev = False"

text \<open>Lines 317-330: \<^verbatim>\<open>new N8nBinkAgent(...)\<close> gives an instance that did not exist before.\<close>

definition new_N8nBinkAgent :: "host \<Rightarrow> jsval list \<Rightarrow> nat io" where
  "new_N8nBinkAgent hst args = (\<lambda>h.
     let k = length (filter is_new_agent h) in
     (case call hst h (NewN8nBinkAgent k args) of Inl e \<Rightarrow> Inl e | Inr v \<Rightarrow> Inr k,
      [NewN8nBinkAgent k args]))"

text \<open>Lines 333-335: \<^verbatim>\<open>for (const plugin of plugins) await binkAgent.registerPlugin(plugin)\<close>.\<close>

fun registerPlugins :: "host \<Rightarrow> nat \<Rightarrow> jsval list \<Rightarrow> unit io" where
  "registerPlugins hst binkAgent [] = io_return ()"
| "registerPlugins hst binkAgent (p # ps) =
     io_bind (host_call hst (RegisterPlugin binkAgent p)) (\<lambda>v. registerPlugins hst binkAgent ps)"

text \<open>
  Lines 295-315: the model, the memory, the options, the networks and the wallet of the
  item (\<^verbatim>\<open>llm\<close>, \<^verbatim>\<open>memory\<close>, \<^verbatim>\<open>n8nOptions\<close>, \<^verbatim>\<open>networks\<close>, \<^verbatim>\<open>wallet\<close>).
\<close>

definition build_context ::
  "host \<Rightarrow> prepared \<Rightarrow> nat \<Rightarrow> (jsval \<times> jsval \<times> jsval \<times> jsval \<times> jsval) io" where
  "build_context hst st itemIndex =
     io_bind (host_call hst GetChatModel) (\<lambda>model.
     io_bind (host_call hst (NewN8nLLM model)) (\<lambda>llm.
     io_bind (host_call hst GetOptionalMemory) (\<lambda>memory.
     io_bind (host_call hst (GetNodeParameter ''options'' itemIndex (JObj []))) (\<lambda>n8nOptions.
     io_bind (host_call hst (GetNetworksConfig (RPC_URLS (baseCredentials st)))) (\<lambda>networks.
     io_bind (host_call hst (NewNetwork (JObj [(''networks'', networks)]))) (\<lambda>network.
     io_bind (host_call hst (NewWallet (walletConfig (baseCredentials st)) network)) (\<lambda>wallet.
     io_return (llm, memory, n8nOptions, networks, wallet))))))))"

text \<open>Lines 295-335: from the chat model to the agent with its plugins registered.\<close>

definition construct_agent :: "host \<Rightarrow> prepared \<Rightarrow> nat \<Rightarrow> (nat \<times> jsval) io" where
  "construct_agent hst st itemIndex =
     io_bind (build_context hst st itemIndex) (\<lambda>(llm, memory, n8nOptions, networks, wallet).
     io_bind (new_N8nBinkAgent hst
                [llm, JStr (typeAgent st), memory, JArr (tools st), outputParser st,
                 JObj [(''temperature'', JNum (1 / 2)), (''systemPrompt'', JStr (SYSTEM_MESSAGE hst))],
                 wallet, networks, n8nOptions]) (\<lambda>binkAgent.
     io_bind (registerPlugins hst binkAgent (plugins st)) (\<lambda>u.
     io_return (binkAgent, memory))))"

text \<open>Line 351 and line 353: \<^verbatim>\<open>binkAgent.execute(input, chatHistory)\<close>, \<^verbatim>\<open>binkAgent.execute(input)\<close>.\<close>

definition binkAgent_execute :: "host \<Rightarrow> nat \<Rightarrow> jsval \<Rightarrow> jsval option \<Rightarrow> jsobject io" where
  "binkAgent_execute hst binkAgent input chatHistory = (\<lambda>h.
     (agentExecute hst h binkAgent input chatHistory, [AgentExecute binkAgent input chatHistory]))"

text \<open>Lines 337-354: the prompt input, its guard, and the one call of the agent.\<close>

definition run_agent :: "host \<Rightarrow> nat \<Rightarrow> nat \<Rightarrow> jsval \<Rightarrow> jsobject io" where
  \<open>run_agent hst itemIndex binkAgent memory =
     io_bind (host_call hst (GetPromptInputByType itemIndex ''text'' ''promptType'')) (\<lambda>input.
     if input = JUndefined
     then io_throw (NodeOperationError ''The "text" parameter is empty.'')
     else if truthy memory
     then io_bind (host_call hst (LoadMemoryVariables memory)) (\<lambda>chatHistory.
            binkAgent_execute hst binkAgent input (Some chatHistory))
     else binkAgent_execute hst binkAgent input None)\<close>

text \<open>Lines 357-362: with an output parser, \<^verbatim>\<open>response.output\<close> is parsed and unwrapped.\<close>

definition applyOutputParser :: "host \<Rightarrow> jsval \<Rightarrow> jsobject \<Rightarrow> js_error + jsobject" where
  "applyOutputParser hst parser response =
     (if truthy parser
      then (case jsonParse hst (get_prop response ''output'') of
              Inl e \<Rightarrow> Inl e
            | Inr parsedOutput \<Rightarrow>
                Inr (set_prop response ''output'' (nullish_or (opt_output parsedOutput) parsedOutput)))
      else Inr response)"

text \<open>Lines 364-373: the item's result, the response without its bookkeeping fields.\<close>

definition itemResult :: "jsobject \<Rightarrow> item_result" where
  "itemResult response =
     \<lparr>json = omit response
        [''system_message'', ''formatting_instructions'', ''input'', ''chat_history'',
         ''agent_scratchpad''],
      pairedItem = None\<rparr>"

text \<open>Lines 295-375: the \<^verbatim>\<open>try\<close> block.\<close>

definition try_block :: "host \<Rightarrow> prepared \<Rightarrow> nat \<Rightarrow> item_result io" where
  "try_block hst st itemIndex =
     io_bind (construct_agent hst st itemIndex) (\<lambda>(binkAgent, memory).
     io_bind (run_agent hst itemIndex binkAgent memory) (\<lambda>response.
     case applyOutputParser hst (outputParser st) response of
       Inl e \<Rightarrow> io_throw e
     | Inr response' \<Rightarrow> io_return (itemResult response')))"

text \<open>
  Line 380: \<^verbatim>\<open>{ error: error.message || 'An error occurred' }\<close>, with the paired item, for
  the value \<open>m\<close> that \<^verbatim>\<open>error.message\<close> gave.
\<close>

definition error_result :: "jsval \<Rightarrow> nat \<Rightarrow> item_result" where
  "error_result m itemIndex =
     \<lparr>json = [(''error'', js_or m (JStr ''An error occurred''))],
      pairedItem = Some itemIndex\<rparr>"

subsection \<open>The loop and the whole function\<close>

text \<open>
  Lines 293-387: the items one after the other.  The \<^verbatim>\<open>catch\<close> block logs what was thrown
  and asks \<^verbatim>\<open>continueOnFail\<close>: if so it records the error as the item's result and goes on,
  unless reading \<^verbatim>\<open>error.message\<close> throws, which nothing catches; if not it throws the
  caught value again.
\<close>

fun run_items ::
  "host \<Rightarrow> prepared \<Rightarrow> nat list \<Rightarrow> item_result list \<Rightarrow> event list
    \<Rightarrow> (js_error + item_result list) \<times> event list" where
  "run_items hst st [] returnData h = (Inr returnData, [])"
| "run_items hst st (itemIndex # rest) returnData h =
     (case try_block hst st itemIndex h of
        (Inr result, evs) \<Rightarrow>
          (case run_items hst st rest (returnData @ [result]) (h @ evs) of
             (r, evs') \<Rightarrow> (r, evs @ evs'))
      | (Inl error, evs) \<Rightarrow>
          (if continueOnFail hst
           then (case error_message error of
                   Inl typeError \<Rightarrow> (Inl typeError, evs @ [ConsoleLog error])
                 | Inr m \<Rightarrow>
                     (case run_items hst st rest (returnData @ [error_result m itemIndex])
                             (h @ evs @ [ConsoleLog error]) of
                        (r, evs') \<Rightarrow> (r, evs @ ConsoleLog error # evs')))
           else (Inl error, evs @ [ConsoleLog error])))"

text \<open>Lines 271-292: what is read once, before the first item.\<close>

definition prepare :: "host \<Rightarrow> js_error + prepared" where
  "prepare hst =
     (case getOptionalOutputParser hst of
        Inl e \<Rightarrow> Inl e
      | Inr parser \<Rightarrow>
     (case getTools hst of
        Inl e \<Rightarrow> Inl e
      | Inr toolsWithPlugins \<Rightarrow>
     (case getCredentials hst of
        Inl e \<Rightarrow> Inl e
      | Inr creds \<Rightarrow>
     (case tools_and_plugins toolsWithPlugins of
        (ts, ps) \<Rightarrow>
          Inr \<lparr>typeAgent = agentParameter hst, outputParser = parser, baseCredentials = creds,
               tools = ts, plugins = ps\<rparr>))))"

text \<open>Lines 270-390: the result is the one output branch, or the error thrown.\<close>

definition execute :: "host \<Rightarrow> (js_error + item_result list list) \<times> event list" where
  "execute hst =
     (case prepare hst of
        Inl e \<Rightarrow> (Inl e, [])
      | Inr st \<Rightarrow>
          (case run_items hst st [0..<length (getInputData hst)] [] [] of
             (Inl e, evs) \<Rightarrow> (Inl e, evs)
           | (Inr returnData, evs) \<Rightarrow> (Inr [returnData], evs)))"

section \<open>Observing the calls\<close>

text \<open>The agent instance a call constructs or addresses, if any.\<close>

fun agent_of :: "event \<Rightarrow> nat option" where
  "agent_of (NewN8nBinkAgent k args) = Some k"
| "agent_of (RegisterPlugin k p) = Some k"
| "agent_of (AgentExecute k i m) = Some k"
| "agent_of ev = None"

fun is_execute_on :: "nat \<Rightarrow> event \<Rightarrow> bool" where
  "is_execute_on k (AgentExecute k' i m) = (k' = k)"
| "is_execute_on k ev = False"

text \<open>The constructions, registrations and executions among the calls, in their order.\<close>

definition agent_calls :: "event list \<Rightarrow> event list" where
  "agent_calls evs = filter (\<lambda>ev. agent_of ev \<noteq> None) evs"

text \<open>A computation that makes calls of one kind only.\<close>

definition only :: "(event \<Rightarrow> bool) \<Rightarrow> 'a io \<Rightarrow> bool" where
  "only Q m = (\<forall>h r evs. m h = (r, evs) \<longrightarrow> (\<forall>ev\<in>set evs. Q ev))"

text \<open>Every instance that the calls mention was constructed among them.\<close>

definition agents_known :: "event list \<Rightarrow> bool" where
  "agents_known h =
     (\<forall>ev\<in>set h. \<forall>k. agent_of ev = Some k \<longrightarrow> k < length (filter is_new_agent h))"

section \<open>The network configuration\<close>

text \<open>
  Modelled from the spec: \<^verbatim>\<open>getNetworksConfig\<close> of \<^verbatim>\<open>utils/networks\<close> is not among the
  sources.  The Builder "validates that every RPC URL is a non-empty string before
  acceptance": a chain enters the configuration, with its URL, exactly when the URL
  supplied for it is a non-empty string, and nothing is raised while building.
\<close>

fun valid_rpc_url :: "jsval \<Rightarrow> bool" where
  "valid_rpc_url (JStr url) = (url \<noteq> [])"
| "valid_rpc_url v = False"

fun getNetworksConfig :: "jsval \<Rightarrow> jsobject" where
  "getNetworksConfig (JObj rpcUrls) =
     map (\<lambda>(chain, url). (chain, JObj [(''rpcUrl'', url)]))
       (filter (\<lambda>(chain, url). valid_rpc_url url) rpcUrls)"
| "getNetworksConfig v = []"

text \<open>
  Modelled from the spec: what a plugin meets when it is exercised on a chain, "a
  missing/malformed URL for a chain that a later-registered plugin requires is reported
  as a deferred capability error at the time that plugin is exercised, not eagerly".
\<close>

definition require_chain :: "jsobject \<Rightarrow> string \<Rightarrow> js_error + jsval" where
  "require_chain networks chain =
     (case map_of networks chain of
        None \<Rightarrow> Inl (JsError (''no RPC URL for chain '' @ chain))
      | Some network \<Rightarrow> Inr network)"

section \<open>A host to run the node on\<close>

text \<open>
  A small host for concrete runs: the memory connection and the prompts of the items are
  given, the agent answers with its input as output, fails on the input \<open>fail\<close> and
  rejects without a reason on the input \<open>reject\<close>, and \<open>jsonParse\<close> knows three JSON texts.
\<close>

fun fixture_call :: "jsval \<Rightarrow> jsval list \<Rightarrow> event list \<Rightarrow> event \<Rightarrow> js_error + jsval" where
  "fixture_call memory prompts h GetOptionalMemory = Inr memory"
| "fixture_call memory prompts h (GetPromptInputByType i inputKey promptTypeKey) =
     Inr (if i < length prompts then prompts ! i else JUndefined)"
| "fixture_call memory prompts h (LoadMemoryVariables m) = Inr (JObj [(''chat_history'', JArr [])])"
| "fixture_call memory prompts h ev = Inr (JObj [])"

definition fixture_execute ::
  "event list \<Rightarrow> nat \<Rightarrow> jsval \<Rightarrow> jsval option \<Rightarrow> js_error + jsobject" where
  "fixture_execute h k input chatHistory =
     (if input = JStr ''fail'' then Inl (JsError ''model unavailable'')
      else if input = JStr ''reject'' then Inl (Thrown JUndefined)
      else Inr [(''input'', input), (''system_message'', JStr ''You are an agent.''),
                (''output'', input), (''intermediateSteps'', JArr [])])"

definition fixture_jsonParse :: "jsval \<Rightarrow> js_error + jsval" where
  \<open>fixture_jsonParse v =
     (if v = JStr ''{"output":{"a":1}}'' then Inr (JObj [(''output'', JObj [(''a'', JNum 1)])])
      else if v = JStr ''{"a":1}'' then Inr (JObj [(''a'', JNum 1)])
      else if v = JStr ''{"output":null}'' then Inr (JObj [(''output'', JNull)])
      else Inl (JsError ''Unexpected token in JSON''))\<close>

definition fixture ::
  "bool \<Rightarrow> jsval \<Rightarrow> jsval \<Rightarrow> tool_with_plugin list \<Rightarrow> jsval \<Rightarrow> jsval list \<Rightarrow> host" where
  "fixture cont parser memory toolsWithPlugins phrase prompts =
     \<lparr>agentParameter = ''toolsAgent'',
      getInputData = map (\<lambda>p. JObj []) prompts,
      getOptionalOutputParser = Inr parser,
      getTools = Inr toolsWithPlugins,
      getCredentials = Inr \<lparr>bnbRpcUrl = JStr ''https://bsc.example'', ethRpcUrl = JStr [],
                            solRpcUrl = JUndefined, mnemonic = phrase\<rparr>,
      continueOnFail = cont,
      SYSTEM_MESSAGE = ''You are an agent.'',
      call = fixture_call memory prompts,
      agentExecute = fixture_execute,
      jsonParse = fixture_jsonParse\<rparr>"

section \<open>Concrete inputs\<close>

definition three_tools :: "tool_with_plugin list" where
  "three_tools =
     [\<lparr>tool = JStr ''swap'', plugin = JObj [(''name'', JStr ''swap'')]\<rparr>,
      \<lparr>tool = JStr ''clock'', plugin = JUndefined\<rparr>,
      \<lparr>tool = JStr ''bridge'', plugin = JNull\<rparr>,
      \<lparr>tool = JStr ''quote'', plugin = JObj [(''name'', JStr ''swap'')]\<rparr>]"

definition full_response :: jsobject where
  "full_response =
     [(''input'', JStr ''What is my BNB balance?''), (''chat_history'', JArr []),
      (''system_message'', JStr ''You are an agent.''), (''formatting_instructions'', JStr []),
      (''agent_scratchpad'', JArr []), (''output'', JStr ''12.5''), (''intermediateSteps'', JArr [])]"

text \<open>What \<open>prepare\<close> gives on the host above with no parser, no tools and no mnemonic.\<close>

definition plain_prepared :: prepared where
  "plain_prepared =
     \<lparr>typeAgent = ''toolsAgent'', outputParser = JUndefined,
      baseCredentials = \<lparr>bnbRpcUrl = JStr ''https://bsc.example'', ethRpcUrl = JStr [],
                           solRpcUrl = JUndefined, mnemonic = JUndefined\<rparr>,
      tools = [], plugins = []\<rparr>"

text \<open>What \<open>prepare\<close> gives on the host above with the four tools and nothing else.\<close>

definition three_prepared :: prepared where
  "three_prepared =
     \<lparr>typeAgent = ''toolsAgent'', outputParser = JUndefined,
      baseCredentials = \<lparr>bnbRpcUrl = JStr ''https://bsc.example'', ethRpcUrl = JStr [],
                           solRpcUrl = JUndefined, mnemonic = JUndefined\<rparr>,
      tools = [JStr ''swap'', JStr ''clock'', JStr ''bridge'', JStr ''quote''],
      plugins = [JObj [(''name'', JStr ''swap'')], JNull, JObj [(''name'', JStr ''swap'')]]\<rparr>"

section \<open>Lemmas on values and on the tools\<close>

lemma push_all_eq: "push_all tws (a, b) = (a @ map tool tws, b @ map plugin tws)"
  by (induction tws arbitrary: a b) auto

lemma tools_and_plugins_eq:
  "tools_and_plugins tws = (map tool tws, filter (\<lambda>p. p \<noteq> JUndefined) (map plugin tws))"
  by (simp add: tools_and_plugins_def push_all_eq)

lemma omit_filter: "omit r ps = filter (\<lambda>kv. fst kv \<notin> set ps) r"
  unfolding omit_def
  by (induction ps) (auto simp: AList.delete_eq case_prod_unfold intro: filter_cong)

lemma map_of_filter_keys:
  "map_of (filter (\<lambda>kv. fst kv \<notin> S) r) k = (if k \<in> S then None else map_of r k)"
  by (induction r) auto

lemma omit_idem: "omit (omit r ps) ps = omit r ps"
  by (simp add: omit_filter)

section \<open>Lemmas on the calls of one item\<close>

lemma io_bindE:
  assumes "io_bind m f h = (r, evs)"
  obtains (fail) e where "m h = (Inl e, evs)" "r = Inl e"
  | (ok) x evs1 evs2 where "m h = (Inr x, evs1)" "f x (h @ evs1) = (r, evs2)" "evs = evs1 @ evs2"
proof (cases "m h")
  case (Pair a evs1)
  show ?thesis
  proof (cases a)
    case (Inl e)
    with Pair assms have "m h = (Inl e, evs)" "r = Inl e" by (simp_all add: io_bind_def)
    then show ?thesis by (rule fail)
  next
    case (Inr x)
    obtain r2 evs2 where f: "f x (h @ evs1) = (r2, evs2)" by (cases "f x (h @ evs1)")
    with Pair Inr assms have "r = r2" "evs = evs1 @ evs2" by (simp_all add: io_bind_def)
    with Pair Inr f show ?thesis by (intro ok[of x evs1 evs2]) simp_all
  qed
qed
lemma only_return: "only Q (io_return x)"
  by (simp add: only_def io_return_def)
lemma only_throw: "only Q (io_throw e)"
  by (simp add: only_def io_throw_def)
lemma only_call: "Q ev \<Longrightarrow> only Q (host_call hst ev)"
  by (simp add: only_def host_call_def)

lemma only_bind:
  assumes m: "only Q m" and f: "\<And>x. only Q (f x)"
  shows "only Q (io_bind m f)"
  unfolding only_def
proof (intro allI impI ballI)
  fix h r evs ev
  assume b: "io_bind m f h = (r, evs)" and ev: "ev \<in> set evs"
  from b show "Q ev"
  proof (cases rule: io_bindE)
    case (fail e)
    with m ev show ?thesis unfolding only_def by blast
  next
    case (ok x evs1 evs2)
    from ok(1) m have "\<forall>ev\<in>set evs1. Q ev" unfolding only_def by blast
    moreover from ok(2) f[of x] have "\<forall>ev\<in>set evs2. Q ev" unfolding only_def by blast
    ultimately show ?thesis using ev ok(3) by auto
  qed
qed

lemma only_build_context: "only (\<lambda>ev. agent_of ev = None) (build_context hst st i)"
  unfolding build_context_def
  by (intro only_bind only_call only_return) simp_all

lemma build_context_no_agent:
  "build_context hst st i h = (r, evs) \<Longrightarrow> ev \<in> set evs \<Longrightarrow> agent_of ev = None"
  using only_build_context[of hst st i] unfolding only_def by blast


lemma new_agent_events:
  "new_N8nBinkAgent hst args h = (r, evs) \<Longrightarrow>
     evs = [NewN8nBinkAgent (length (filter is_new_agent h)) args] \<and>
     (\<forall>k. r = Inr k \<longrightarrow> k = length (filter is_new_agent h))"
  by (auto simp: new_N8nBinkAgent_def Let_def split: sum.splits)

lemma is_new_agent_agent_of: "is_new_agent ev \<Longrightarrow> agent_of ev \<noteq> None"
  by (cases ev) simp_all

lemma no_agent_no_new: "\<forall>ev\<in>set evs. agent_of ev = None \<Longrightarrow> filter is_new_agent evs = []"
  by (auto simp: filter_empty_conv dest: is_new_agent_agent_of)

lemma registerPlugins_events:
  "registerPlugins hst k ps h = (r, evs) \<Longrightarrow>
     \<exists>n\<le>length ps. evs = map (RegisterPlugin k) (take n ps) \<and> (r = Inr () \<longrightarrow> n = length ps)"
proof (induction ps arbitrary: h r evs)
  case Nil
  then show ?case by (simp add: io_return_def)
next
  case (Cons p ps)
  from Cons.prems have "io_bind (host_call hst (RegisterPlugin k p)) (\<lambda>v. registerPlugins hst k ps) h = (r, evs)"
    by simp
  then show ?case
  proof (cases rule: io_bindE)
    case (fail e)
    then have "evs = [RegisterPlugin k p]" by (simp add: host_call_def)
    with fail show ?thesis by (intro exI[of _ 1]) simp
  next
    case (ok x evs1 evs2)
    from ok(1) have e1: "evs1 = [RegisterPlugin k p]" by (simp add: host_call_def)
    from Cons.IH[OF ok(2)] obtain n where n: "n \<le> length ps" "evs2 = map (RegisterPlugin k) (take n ps)"
      "r = Inr () \<longrightarrow> n = length ps" by blast
    show ?thesis using n e1 ok(3) by (intro exI[of _ "Suc n"]) simp
  qed
qed

lemma construct_agent_cases:
  assumes "construct_agent hst st i h = (r, evs)"
  obtains (context_fails) e where
      "build_context hst st i h = (Inl e, evs)" "r = Inl e"
  | (new_fails) e c evs1 args where
      "build_context hst st i h = (Inr c, evs1)"
      "evs = evs1 @ [NewN8nBinkAgent (length (filter is_new_agent h)) args]" "r = Inl e"
  | (registering) c evs1 args r2 evs2 where
      "build_context hst st i h = (Inr c, evs1)"
      "registerPlugins hst (length (filter is_new_agent h)) (plugins st)
          (h @ evs1 @ [NewN8nBinkAgent (length (filter is_new_agent h)) args]) = (r2, evs2)"
      "evs = evs1 @ NewN8nBinkAgent (length (filter is_new_agent h)) args # evs2"
      "r = (case r2 of Inl e \<Rightarrow> Inl e | Inr u \<Rightarrow> Inr (length (filter is_new_agent h), fst (snd c)))"
  using assms unfolding construct_agent_def
proof (cases rule: io_bindE)
  case (fail e)
  then show ?thesis by (rule context_fails)
next
  case (ok c evs1 evs')
  obtain llm memory n8nOptions networks wallet where c: "c = (llm, memory, n8nOptions, networks, wallet)"
    by (cases c) auto
  have cnt: "length (filter is_new_agent (h @ evs1)) = length (filter is_new_agent h)"
    using no_agent_no_new[of evs1] build_context_no_agent[OF ok(1)] by simp
  from ok(2) c have
    "io_bind (new_N8nBinkAgent hst
                [llm, JStr (typeAgent st), memory, JArr (tools st), outputParser st,
                 JObj [(''temperature'', JNum (1 / 2)), (''systemPrompt'', JStr (SYSTEM_MESSAGE hst))],
                 wallet, networks, n8nOptions])
       (\<lambda>binkAgent. io_bind (registerPlugins hst binkAgent (plugins st))
                        (\<lambda>u. io_return (binkAgent, memory))) (h @ evs1) = (r, evs')"
    by simp
  then show ?thesis
  proof (cases rule: io_bindE)
    case (fail e)
    from new_agent_events[OF fail(1)] fail(2) ok(1,3) cnt show ?thesis
      by (intro new_fails[of c evs1 _ e]) simp_all
  next
    case inner: (ok k evs2 evs3)
    from new_agent_events[OF inner(1)] cnt
    have k: "k = length (filter is_new_agent h)" and
      evs2: "evs2 = [NewN8nBinkAgent (length (filter is_new_agent h)) 
                [llm, JStr (typeAgent st), memory, JArr (tools st), outputParser st,
                 JObj [(''temperature'', JNum (1 / 2)), (''systemPrompt'', JStr (SYSTEM_MESSAGE hst))],
                 wallet, networks, n8nOptions]]"
      by simp_all
    obtain r2 evs4 where reg: "registerPlugins hst k (plugins st) (h @ evs1 @ evs2) = (r2, evs4)"
      by (cases "registerPlugins hst k (plugins st) (h @ evs1 @ evs2)")
    from inner(2) reg have r: "r = (case r2 of Inl e \<Rightarrow> Inl e | Inr u \<Rightarrow> Inr (k, fst (snd c)))" and e3: "evs3 = evs4"
      by (auto simp: io_bind_def io_return_def c split: sum.splits)
    show ?thesis
      using ok(1) reg r e3 inner(3) ok(3) unfolding k evs2
      by (intro registering[of c evs1 _ r2 evs4]) (simp_all add: c)
  qed
qed


lemma construct_agent_Inr:
  assumes "construct_agent hst st i h = (Inr (k, mem), evs)"
  shows "k = length (filter is_new_agent h)"
    and "\<exists>pre args. evs = pre @ NewN8nBinkAgent k args # map (RegisterPlugin k) (plugins st) \<and>
           (\<forall>ev\<in>set pre. agent_of ev = None)"
  using assms
proof (atomize (full), cases rule: construct_agent_cases)
  case (context_fails e)
  then show "k = length (filter is_new_agent h) \<and>
    (\<exists>pre args. evs = pre @ NewN8nBinkAgent k args # map (RegisterPlugin k) (plugins st) \<and>
           (\<forall>ev\<in>set pre. agent_of ev = None))" by simp
next
  case (new_fails e c evs1 args)
  then show "k = length (filter is_new_agent h) \<and>
    (\<exists>pre args. evs = pre @ NewN8nBinkAgent k args # map (RegisterPlugin k) (plugins st) \<and>
           (\<forall>ev\<in>set pre. agent_of ev = None))" by simp
next
  case (registering c evs1 args r2 evs2)
  from registering(4) have k: "k = length (filter is_new_agent h)" and r2: "r2 = Inr ()"
    by (auto split: sum.splits)
  from registerPlugins_events[OF registering(2)] r2
  have "evs2 = map (RegisterPlugin k) (plugins st)" using k by auto
  with registering(3) k build_context_no_agent[OF registering(1)]
  show "k = length (filter is_new_agent h) \<and>
    (\<exists>pre args. evs = pre @ NewN8nBinkAgent k args # map (RegisterPlugin k) (plugins st) \<and>
           (\<forall>ev\<in>set pre. agent_of ev = None))" by blast
qed

lemma construct_agent_events:
  assumes "construct_agent hst st i h = (r, evs)"
  shows "\<forall>ev\<in>set evs. agent_of ev = None \<or> agent_of ev = Some (length (filter is_new_agent h))"
    and "\<forall>ev\<in>set evs. \<not> is_execute_on k' ev"
    and "(\<forall>ev\<in>set evs. agent_of ev = None) \<and> (\<exists>e. r = Inl e) \<or> length (filter is_new_agent evs) = 1"
  using assms
proof (atomize (full), cases rule: construct_agent_cases)
  case (context_fails e)
  from build_context_no_agent[OF context_fails(1)] context_fails(2)
  have a: "\<forall>ev\<in>set evs. agent_of ev = None" by blast
  then have "\<forall>ev\<in>set evs. \<not> is_execute_on k' ev"
    by (metis agent_of.simps(3) is_execute_on.elims(2) option.discI)
  with a context_fails(2) show "(\<forall>ev\<in>set evs. agent_of ev = None \<or> agent_of ev = Some (length (filter is_new_agent h))) \<and>
    (\<forall>ev\<in>set evs. \<not> is_execute_on k' ev) \<and>
    ((\<forall>ev\<in>set evs. agent_of ev = None) \<and> (\<exists>e. r = Inl e) \<or> length (filter is_new_agent evs) = 1)"
    by blast
next
  case (new_fails e c evs1 args)
  from build_context_no_agent[OF new_fails(1)]
  have a: "\<forall>ev\<in>set evs1. agent_of ev = None" by blast
  then have x: "\<forall>ev\<in>set evs1. \<not> is_execute_on k' ev"
    by (metis agent_of.simps(3) is_execute_on.elims(2) option.discI)
  from a x new_fails(2) no_agent_no_new[OF a]
  show "(\<forall>ev\<in>set evs. agent_of ev = None \<or> agent_of ev = Some (length (filter is_new_agent h))) \<and>
    (\<forall>ev\<in>set evs. \<not> is_execute_on k' ev) \<and>
    ((\<forall>ev\<in>set evs. agent_of ev = None) \<and> (\<exists>e. r = Inl e) \<or> length (filter is_new_agent evs) = 1)"
    by auto
next
  case (registering c evs1 args r2 evs2)
  from build_context_no_agent[OF registering(1)]
  have a: "\<forall>ev\<in>set evs1. agent_of ev = None" by blast
  then have x: "\<forall>ev\<in>set evs1. \<not> is_execute_on k' ev"
    by (metis agent_of.simps(3) is_execute_on.elims(2) option.discI)
  from registerPlugins_events[OF registering(2)]
  have b: "\<forall>ev\<in>set evs2. \<exists>p. ev = RegisterPlugin (length (filter is_new_agent h)) p"
    by (auto dest: in_set_takeD)
  then have b': "filter is_new_agent evs2 = []" by (auto simp: filter_empty_conv)
  from a x b b' registering(3) no_agent_no_new[OF a]
  show "(\<forall>ev\<in>set evs. agent_of ev = None \<or> agent_of ev = Some (length (filter is_new_agent h))) \<and>
    (\<forall>ev\<in>set evs. \<not> is_execute_on k' ev) \<and>
    ((\<forall>ev\<in>set evs. agent_of ev = None) \<and> (\<exists>e. r = Inl e) \<or> length (filter is_new_agent evs) = 1)"
    by auto
qed

lemma run_agent_prompt_fails:
  "call hst h (GetPromptInputByType i ''text'' ''promptType'') = Inl e \<Longrightarrow>
   run_agent hst i k mem h = (Inl e, [GetPromptInputByType i ''text'' ''promptType''])"
  by (simp add: run_agent_def io_bind_def host_call_def)

lemma run_agent_undefined:
  \<open>call hst h (GetPromptInputByType i ''text'' ''promptType'') = Inr JUndefined \<Longrightarrow>
   run_agent hst i k mem h =
     (Inl (NodeOperationError ''The "text" parameter is empty.''), [GetPromptInputByType i ''text'' ''promptType''])\<close>
  by (simp add: run_agent_def io_bind_def host_call_def io_throw_def)

lemma run_agent_load_fails:
  "call hst h (GetPromptInputByType i ''text'' ''promptType'') = Inr input \<Longrightarrow> input \<noteq> JUndefined \<Longrightarrow>
   truthy mem \<Longrightarrow>
   call hst (h @ [GetPromptInputByType i ''text'' ''promptType'']) (LoadMemoryVariables mem) = Inl e \<Longrightarrow>
   run_agent hst i k mem h =
     (Inl e, [GetPromptInputByType i ''text'' ''promptType'', LoadMemoryVariables mem])"
  by (simp add: run_agent_def io_bind_def host_call_def binkAgent_execute_def)

lemma run_agent_memory:
  "call hst h (GetPromptInputByType i ''text'' ''promptType'') = Inr input \<Longrightarrow> input \<noteq> JUndefined \<Longrightarrow>
   truthy mem \<Longrightarrow>
   call hst (h @ [GetPromptInputByType i ''text'' ''promptType'']) (LoadMemoryVariables mem) = Inr chatHistory \<Longrightarrow>
   run_agent hst i k mem h =
     (agentExecute hst (h @ [GetPromptInputByType i ''text'' ''promptType'', LoadMemoryVariables mem]) k input (Some chatHistory),
      [GetPromptInputByType i ''text'' ''promptType'', LoadMemoryVariables mem, AgentExecute k input (Some chatHistory)])"
  by (simp add: run_agent_def io_bind_def host_call_def binkAgent_execute_def)

lemma run_agent_no_memory:
  "call hst h (GetPromptInputByType i ''text'' ''promptType'') = Inr input \<Longrightarrow> input \<noteq> JUndefined \<Longrightarrow>
   \<not> truthy mem \<Longrightarrow>
   run_agent hst i k mem h =
     (agentExecute hst (h @ [GetPromptInputByType i ''text'' ''promptType'']) k input None,
      [GetPromptInputByType i ''text'' ''promptType'', AgentExecute k input None])"
  by (simp add: run_agent_def io_bind_def host_call_def binkAgent_execute_def)

lemma run_agent_events:
  assumes "run_agent hst i k mem h = (r, evs)"
  shows "(\<forall>ev\<in>set evs. agent_of ev = None) \<and> (\<exists>e. r = Inl e) \<or>
         (\<exists>pre input arg. evs = pre @ [AgentExecute k input arg] \<and> (\<forall>ev\<in>set pre. agent_of ev = None) \<and>
            input \<noteq> JUndefined)"
proof (cases "call hst h (GetPromptInputByType i ''text'' ''promptType'')")
  case (Inl e)
  from run_agent_prompt_fails[OF Inl] assms show ?thesis by auto
next
  case (Inr input)
  show ?thesis
  proof (cases "input = JUndefined")
    case True
    with Inr run_agent_undefined[of hst h i k mem] assms show ?thesis by auto
  next
    case False
    show ?thesis
    proof (cases "truthy mem")
      case no: False
      from run_agent_no_memory[OF Inr False no] assms
      have "evs = [GetPromptInputByType i ''text'' ''promptType''] @ [AgentExecute k input None]" by simp
      with False show ?thesis
        by (intro disjI2 exI[of _ "[GetPromptInputByType i ''text'' ''promptType'']"]
              exI[of _ input] exI[of _ None]) simp
    next
      case yes: True
      show ?thesis
      proof (cases "call hst (h @ [GetPromptInputByType i ''text'' ''promptType'']) (LoadMemoryVariables mem)")
        case (Inl e)
        from run_agent_load_fails[OF Inr False yes Inl] assms show ?thesis by auto
      next
        case ch: (Inr chatHistory)
        from run_agent_memory[OF Inr False yes ch] assms
        have "evs = [GetPromptInputByType i ''text'' ''promptType'', LoadMemoryVariables mem] @
                [AgentExecute k input (Some chatHistory)]" by simp
        with False show ?thesis
          by (intro disjI2
                exI[of _ "[GetPromptInputByType i ''text'' ''promptType'', LoadMemoryVariables mem]"]
                exI[of _ input] exI[of _ "Some chatHistory"]) simp
      qed
    qed
  qed
qed

lemma try_block_construct_fails:
  "construct_agent hst st i h = (Inl e, evs) \<Longrightarrow> try_block hst st i h = (Inl e, evs)"
  by (simp add: try_block_def io_bind_def)

lemma try_block_constructed:
  "construct_agent hst st i h = (Inr (k, mem), evs0) \<Longrightarrow>
   run_agent hst i k mem (h @ evs0) = (r1, evs1) \<Longrightarrow>
   try_block hst st i h =
     ((case r1 of
         Inl e \<Rightarrow> Inl e
       | Inr response \<Rightarrow>
           (case applyOutputParser hst (outputParser st) response of
              Inl e \<Rightarrow> Inl e
            | Inr response' \<Rightarrow> Inr (itemResult response'))),
      evs0 @ evs1)"
  by (simp add: try_block_def io_bind_def io_throw_def io_return_def split: sum.splits)

lemma try_block_cases:
  assumes "try_block hst st i h = (r, evs)"
  obtains (construct_fails) e where "construct_agent hst st i h = (Inl e, evs)" "r = Inl e"
  | (constructed) k mem evs0 r1 evs1 where
      "construct_agent hst st i h = (Inr (k, mem), evs0)"
      "run_agent hst i k mem (h @ evs0) = (r1, evs1)"
      "evs = evs0 @ evs1"
      "r = (case r1 of
              Inl e \<Rightarrow> Inl e
            | Inr response \<Rightarrow>
                (case applyOutputParser hst (outputParser st) response of
                   Inl e \<Rightarrow> Inl e
                 | Inr response' \<Rightarrow> Inr (itemResult response')))"
proof (cases "construct_agent hst st i h")
  case (Pair a evs0)
  show ?thesis
  proof (cases a)
    case (Inl e)
    with Pair try_block_construct_fails[of hst st i h e evs0] assms show ?thesis
      by (intro construct_fails[of e]) simp_all
  next
    case (Inr km)
    obtain k mem where km: "km = (k, mem)" by (cases km)
    obtain r1 evs1 where ra: "run_agent hst i k mem (h @ evs0) = (r1, evs1)"
      by (cases "run_agent hst i k mem (h @ evs0)")
    from Pair Inr km have ca: "construct_agent hst st i h = (Inr (k, mem), evs0)" by simp
    from try_block_constructed[OF ca ra] assms show ?thesis
      by (intro constructed[OF ca ra]) simp_all
  qed
qed

section \<open>Lemmas on the loop\<close>

lemma run_items_append:
  "run_items hst st (xs @ ys) rd h =
     (case run_items hst st xs rd h of
        (Inl e, evs) \<Rightarrow> (Inl e, evs)
      | (Inr rd', evs) \<Rightarrow>
          (case run_items hst st ys rd' (h @ evs) of (r, evs') \<Rightarrow> (r, evs @ evs')))"
proof (induction xs arbitrary: rd h)
  case Nil
  show ?case by (simp split: prod.splits)
next
  case (Cons x xs)
  show ?case
  proof (cases "try_block hst st x h")
    case (Pair a evs)
    show ?thesis
    proof (cases a)
      case (Inl e)
      show ?thesis
      proof (cases "error_message e")
        case t: (Inl typeError)
        with Pair Inl show ?thesis by simp
      next
        case m: (Inr m)
        with Pair Inl show ?thesis
          by (simp add: Cons split: prod.splits sum.splits)
      qed
    next
      case (Inr res)
      with Pair show ?thesis
        by (simp add: Cons split: prod.splits sum.splits)
    qed
  qed
qed

lemma run_items_Inr:
  "run_items hst st xs rd h = (Inr rs, evs) \<Longrightarrow>
     length rs = length rd + length xs \<and> take (length rd) rs = rd"
proof (induction xs arbitrary: rd h evs)
  case Nil
  then show ?case by simp
next
  case (Cons x xs)
  show ?case
  proof (cases "try_block hst st x h")
    case (Pair a evs1)
    show ?thesis
    proof (cases a)
      case (Inl e)
      with Pair Cons.prems have c: "continueOnFail hst"
        by (auto split: if_splits)
      with Pair Inl Cons.prems obtain m where m: "error_message e = Inr m"
        by (cases "error_message e") auto
      obtain r2 evs2 where rec: "run_items hst st xs (rd @ [error_result m x]) (h @ evs1 @ [ConsoleLog e]) = (r2, evs2)"
        by (cases "run_items hst st xs (rd @ [error_result m x]) (h @ evs1 @ [ConsoleLog e])")
      with Pair Inl c m Cons.prems have "r2 = Inr rs" by simp
      from Cons.IH[OF rec[unfolded this]] show ?thesis
        by (auto simp: take_Suc_conv_app_nth dest: arg_cong[where f = "take (length rd)"])
    next
      case (Inr res)
      obtain r2 evs2 where rec: "run_items hst st xs (rd @ [res]) (h @ evs1) = (r2, evs2)"
        by (cases "run_items hst st xs (rd @ [res]) (h @ evs1)")
      with Pair Inr Cons.prems have "r2 = Inr rs" by simp
      from Cons.IH[OF rec[unfolded this]] show ?thesis
        by (auto dest: arg_cong[where f = "take (length rd)"])
    qed
  qed
qed

lemma upt_split_at: "j < n \<Longrightarrow> [0..<n] = [0..<j] @ j # [Suc j..<n]"
proof -
  assume j: "j < n"
  have "[0..<j + (n - j)] = [0..<j] @ [j..<j + (n - j)]"
    by (rule upt_add_eq_append) simp
  with j show ?thesis by (simp add: upt_conv_Cons)
qed

lemma run_items_failing_item:
  assumes before: "run_items hst st [0..<j] [] [] = (Inr rd, evs0)"
    and fails: "try_block hst st j evs0 = (Inl e, evs)"
    and j: "j < n"
  shows "\<not> continueOnFail hst \<Longrightarrow>
           run_items hst st [0..<n] [] [] = (Inl e, evs0 @ evs @ [ConsoleLog e])"
    and "continueOnFail hst \<Longrightarrow> error_message e = Inl t \<Longrightarrow>
           run_items hst st [0..<n] [] [] = (Inl t, evs0 @ evs @ [ConsoleLog e])"
    and "continueOnFail hst \<Longrightarrow> error_message e = Inr m \<Longrightarrow>
           run_items hst st [0..<n] [] [] =
             (case run_items hst st [Suc j..<n] (rd @ [error_result m j]) (evs0 @ evs @ [ConsoleLog e]) of
                (r, evs') \<Rightarrow> (r, evs0 @ evs @ ConsoleLog e # evs'))"
  using before fails
  by (simp_all add: upt_split_at[OF j] run_items_append split: prod.splits)

lemma execute_failing_item_abort:
  assumes "prepare hst = Inr st" "j < length (getInputData hst)"
    "run_items hst st [0..<j] [] [] = (Inr rd, evs0)"
    "try_block hst st j evs0 = (Inl e, evs)"
    "\<not> continueOnFail hst"
  shows "execute hst = (Inl e, evs0 @ evs @ [ConsoleLog e])"
  using assms(1) run_items_failing_item(1)[OF assms(3,4,2,5)]
  by (simp add: execute_def)

lemma execute_failing_item_type_error:
  assumes "prepare hst = Inr st" "j < length (getInputData hst)"
    "run_items hst st [0..<j] [] [] = (Inr rd, evs0)"
    "try_block hst st j evs0 = (Inl e, evs)"
    "continueOnFail hst" "error_message e = Inl t"
  shows "execute hst = (Inl t, evs0 @ evs @ [ConsoleLog e])"
  using assms(1) run_items_failing_item(2)[OF assms(3,4,2,5,6)]
  by (simp add: execute_def)

lemma execute_failing_item_continue:
  assumes "prepare hst = Inr st" "j < length (getInputData hst)"
    "run_items hst st [0..<j] [] [] = (Inr rd, evs0)"
    "try_block hst st j evs0 = (Inl e, evs)"
    "continueOnFail hst" "error_message e = Inr m"
  shows "\<exists>r evs'.
           run_items hst st [Suc j..<length (getInputData hst)] (rd @ [error_result m j])
              (evs0 @ evs @ [ConsoleLog e]) = (r, evs') \<and>
           execute hst =
             ((case r of Inl a \<Rightarrow> Inl a | Inr rs \<Rightarrow> Inr [rs]),
              evs0 @ evs @ ConsoleLog e # evs') \<and>
           (\<forall>rs. r = Inr rs \<longrightarrow>
              length rs = length (getInputData hst) \<and> take j rs = rd \<and>
              rs ! j = error_result m j)"
proof -
  let ?n = "length (getInputData hst)"
  obtain r evs' where
    rest: "run_items hst st [Suc j..<?n] (rd @ [error_result m j]) (evs0 @ evs @ [ConsoleLog e]) = (r, evs')"
    by (cases "run_items hst st [Suc j..<?n] (rd @ [error_result m j]) (evs0 @ evs @ [ConsoleLog e])")
  from run_items_Inr[OF assms(3)] have lrd: "length rd = j" by simp
  have fin: "length rs = ?n \<and> take j rs = rd \<and> rs ! j = error_result m j" if "r = Inr rs" for rs
  proof -
    from run_items_Inr[OF rest[unfolded that]] lrd assms(2)
    have len: "length rs = ?n" and tk: "take (Suc j) rs = rd @ [error_result m j]" by simp_all
    have "take j rs = take j (take (Suc j) rs)" by simp
    with tk lrd have "take j rs = rd" by simp
    moreover from tk lrd have "rs ! j = error_result m j"
      by (metis lessI nth_append_length nth_take)
    ultimately show ?thesis using len by blast
  qed
  from assms(1) rest run_items_failing_item(3)[OF assms(3,4,2,5,6)]
  have "execute hst =
          ((case r of Inl a \<Rightarrow> Inl a | Inr rs \<Rightarrow> Inr [rs]), evs0 @ evs @ ConsoleLog e # evs')"
    by (simp add: execute_def split: sum.splits)
  with rest fin show ?thesis by blast
qed

section \<open>Lemmas on the agent instances\<close>

lemma agent_calls_append: "agent_calls (xs @ ys) = agent_calls xs @ agent_calls ys"
  by (simp add: agent_calls_def)

lemma agent_calls_none: "\<forall>ev\<in>set evs. agent_of ev = None \<Longrightarrow> agent_calls evs = []"
  by (simp add: agent_calls_def filter_empty_conv)

lemma agent_calls_register: "agent_calls (map (RegisterPlugin k) ps) = map (RegisterPlugin k) ps"
  by (induction ps) (simp_all add: agent_calls_def)

lemma construct_agent_agent_calls:
  assumes "construct_agent hst st i h = (r, evs)"
  shows "\<exists>args n. agent_calls evs =
           take n (NewN8nBinkAgent (length (filter is_new_agent h)) args #
                   map (RegisterPlugin (length (filter is_new_agent h))) (plugins st))"
  using assms
proof (cases rule: construct_agent_cases)
  case (context_fails e)
  from build_context_no_agent[OF context_fails(1)] have "agent_calls evs = []"
    by (intro agent_calls_none) blast
  then show ?thesis by (intro exI[of _ "[]"] exI[of _ 0]) simp
next
  case (new_fails e c evs1 args)
  from build_context_no_agent[OF new_fails(1)] have "agent_calls evs1 = []"
    by (intro agent_calls_none) blast
  with new_fails(2) show ?thesis
    by (intro exI[of _ args] exI[of _ 1]) (simp add: agent_calls_append agent_calls_def)
next
  case (registering c evs1 args r2 evs2)
  from build_context_no_agent[OF registering(1)] have a: "agent_calls evs1 = []"
    by (intro agent_calls_none) blast
  from registerPlugins_events[OF registering(2)] obtain n where
    n: "evs2 = map (RegisterPlugin (length (filter is_new_agent h))) (take n (plugins st))" by blast
  have "agent_calls evs = NewN8nBinkAgent (length (filter is_new_agent h)) args # agent_calls evs2"
    using registering(3) a by (simp add: agent_calls_append) (simp add: agent_calls_def)
  with n show ?thesis
    by (intro exI[of _ args] exI[of _ "Suc n"]) (simp add: agent_calls_register take_map)
qed

lemma try_block_agent_calls:
  assumes "try_block hst st i h = (r, evs)"
  shows "\<exists>args input arg. prefix (agent_calls evs)
           (NewN8nBinkAgent (length (filter is_new_agent h)) args #
            map (RegisterPlugin (length (filter is_new_agent h))) (plugins st) @
            [AgentExecute (length (filter is_new_agent h)) input arg])"
  using assms
proof (cases rule: try_block_cases)
  case (construct_fails e)
  from construct_agent_agent_calls[OF construct_fails(1)] obtain args n where
    "agent_calls evs = take n (NewN8nBinkAgent (length (filter is_new_agent h)) args #
                   map (RegisterPlugin (length (filter is_new_agent h))) (plugins st))" by blast
  then have "prefix (agent_calls evs) ((NewN8nBinkAgent (length (filter is_new_agent h)) args #
                   map (RegisterPlugin (length (filter is_new_agent h))) (plugins st)) @ [AgentExecute (length (filter is_new_agent h)) JNull None])"
    by (metis prefix_prefix take_is_prefix)
  then show ?thesis by auto
next
  case (constructed k mem evs0 r1 evs1)
  from construct_agent_Inr[OF constructed(1)] obtain pre args where
    k: "k = length (filter is_new_agent h)" and
    evs0: "evs0 = pre @ NewN8nBinkAgent k args # map (RegisterPlugin k) (plugins st)" and
    pre: "\<forall>ev\<in>set pre. agent_of ev = None" by blast
  have a0: "agent_calls evs0 = NewN8nBinkAgent k args # map (RegisterPlugin k) (plugins st)"
    unfolding evs0 using agent_calls_none[OF pre] agent_calls_register[of k "plugins st"]
    by (simp add: agent_calls_append) (simp add: agent_calls_def)
  from run_agent_events[OF constructed(2)] show ?thesis
  proof
    assume "(\<forall>ev\<in>set evs1. agent_of ev = None) \<and> (\<exists>e. r1 = Inl e)"
    then have "agent_calls evs1 = []" by (intro agent_calls_none) blast
    with a0 constructed(3) have "agent_calls evs = NewN8nBinkAgent k args # map (RegisterPlugin k) (plugins st)"
      by (simp add: agent_calls_append)
    then have "prefix (agent_calls evs) ((NewN8nBinkAgent k args # map (RegisterPlugin k) (plugins st)) @ [AgentExecute k JNull None])"
      by simp
    then show ?thesis unfolding k by auto
  next
    assume "\<exists>pre input arg. evs1 = pre @ [AgentExecute k input arg] \<and> (\<forall>ev\<in>set pre. agent_of ev = None) \<and>
            input \<noteq> JUndefined"
    then obtain pre' input arg where e1: "evs1 = pre' @ [AgentExecute k input arg]"
      and p': "\<forall>ev\<in>set pre'. agent_of ev = None" by blast
    have "agent_calls evs1 = [AgentExecute k input arg]"
      unfolding e1 using agent_calls_none[OF p'] by (simp add: agent_calls_append) (simp add: agent_calls_def)
    with a0 constructed(3) have "agent_calls evs = NewN8nBinkAgent k args # map (RegisterPlugin k) (plugins st) @ [AgentExecute k input arg]"
      by (simp add: agent_calls_append)
    then show ?thesis unfolding k by auto
  qed
qed

lemma is_execute_on_agent_of: "is_execute_on k ev \<Longrightarrow> agent_of ev = Some k"
  by (cases ev) simp_all

lemma no_agent_no_execute: "\<forall>ev\<in>set evs. agent_of ev = None \<Longrightarrow> filter (is_execute_on k) evs = []"
  by (auto simp: filter_empty_conv dest: is_execute_on_agent_of)

lemma invariant_extend:
  assumes known: "agents_known h"
    and once: "\<forall>k. length (filter (is_execute_on k) h) \<le> 1"
    and ids: "\<forall>ev\<in>set evs. agent_of ev = None \<or> agent_of ev = Some (length (filter is_new_agent h))"
    and new: "(\<forall>ev\<in>set evs. agent_of ev = None) \<or> length (filter is_new_agent evs) = 1"
    and exec: "\<forall>k. length (filter (is_execute_on k) evs) \<le> 1"
  shows "agents_known (h @ evs) \<and> (\<forall>k. length (filter (is_execute_on k) (h @ evs)) \<le> 1)"
proof
  show "agents_known (h @ evs)"
    unfolding agents_known_def
  proof (intro ballI allI impI)
    fix ev k assume ev: "ev \<in> set (h @ evs)" and k: "agent_of ev = Some k"
    show "k < length (filter is_new_agent (h @ evs))"
    proof (cases "ev \<in> set h")
      case True
      with known k have "k < length (filter is_new_agent h)" unfolding agents_known_def by blast
      then show ?thesis by simp
    next
      case False
      with ev have in_evs: "ev \<in> set evs" by simp
      with ids k have "k = length (filter is_new_agent h)" by auto
      moreover from in_evs k new have "length (filter is_new_agent evs) = 1" by auto
      ultimately show ?thesis by simp
    qed
  qed
next
  show "\<forall>k. length (filter (is_execute_on k) (h @ evs)) \<le> 1"
  proof
    fix k
    show "length (filter (is_execute_on k) (h @ evs)) \<le> 1"
    proof (cases "filter (is_execute_on k) evs = []")
      case True
      with once show ?thesis by simp
    next
      case False
      then obtain ev where ev: "ev \<in> set evs" "is_execute_on k ev"
        by (auto simp: filter_empty_conv)
      with ids is_execute_on_agent_of[OF ev(2)] have k: "k = length (filter is_new_agent h)" by auto
      have "filter (is_execute_on k) h = []"
      proof (rule ccontr)
        assume "filter (is_execute_on k) h \<noteq> []"
        then obtain ev' where "ev' \<in> set h" "is_execute_on k ev'" by (auto simp: filter_empty_conv)
        with known is_execute_on_agent_of[of k ev'] have "k < length (filter is_new_agent h)"
          unfolding agents_known_def by blast
        with k show False by simp
      qed
      with exec show ?thesis by simp
    qed
  qed
qed

lemma try_block_events:
  assumes "try_block hst st i h = (r, evs)"
  shows "\<forall>ev\<in>set evs. agent_of ev = None \<or> agent_of ev = Some (length (filter is_new_agent h))"
    and "(\<forall>ev\<in>set evs. agent_of ev = None) \<or> length (filter is_new_agent evs) = 1"
    and "\<forall>k. length (filter (is_execute_on k) evs) \<le> 1"
  using assms
proof (atomize (full), cases rule: try_block_cases)
  case (construct_fails e)
  from construct_agent_events[OF construct_fails(1)]
  show "(\<forall>ev\<in>set evs. agent_of ev = None \<or> agent_of ev = Some (length (filter is_new_agent h))) \<and>
    ((\<forall>ev\<in>set evs. agent_of ev = None) \<or> length (filter is_new_agent evs) = 1) \<and>
    (\<forall>k. length (filter (is_execute_on k) evs) \<le> 1)"
    by (auto simp: filter_empty_conv)
next
  case (constructed k mem evs0 r1 evs1)
  note ca = construct_agent_events[OF constructed(1)]
  from ca(3) have new0: "length (filter is_new_agent evs0) = 1" by simp
  from ca(2) have ex0: "\<And>k'. filter (is_execute_on k') evs0 = []" by (simp add: filter_empty_conv)
  from construct_agent_Inr(1)[OF constructed(1)] have k: "k = length (filter is_new_agent h)" .
  from run_agent_events[OF constructed(2)]
  have "(\<forall>ev\<in>set evs1. agent_of ev = None \<or> agent_of ev = Some k) \<and>
        filter is_new_agent evs1 = [] \<and> (\<forall>k'. length (filter (is_execute_on k') evs1) \<le> 1)"
  proof
    assume "(\<forall>ev\<in>set evs1. agent_of ev = None) \<and> (\<exists>e. r1 = Inl e)"
    then have a: "\<forall>ev\<in>set evs1. agent_of ev = None" by blast
    from a no_agent_no_new[OF a] no_agent_no_execute[OF a] show ?thesis by simp
  next
    assume "\<exists>pre input arg. evs1 = pre @ [AgentExecute k input arg] \<and> (\<forall>ev\<in>set pre. agent_of ev = None) \<and>
            input \<noteq> JUndefined"
    then obtain pre input arg where e1: "evs1 = pre @ [AgentExecute k input arg]"
      and a: "\<forall>ev\<in>set pre. agent_of ev = None" by blast
    from a no_agent_no_new[OF a] no_agent_no_execute[OF a] show ?thesis unfolding e1 by auto
  qed
  with ca(1) new0 ex0 constructed(3) k
  show "(\<forall>ev\<in>set evs. agent_of ev = None \<or> agent_of ev = Some (length (filter is_new_agent h))) \<and>
    ((\<forall>ev\<in>set evs. agent_of ev = None) \<or> length (filter is_new_agent evs) = 1) \<and>
    (\<forall>k. length (filter (is_execute_on k) evs) \<le> 1)"
    by auto
qed

lemma run_items_invariant:
  "run_items hst st xs rd h = (r, evs) \<Longrightarrow> agents_known h \<Longrightarrow>
   \<forall>k. length (filter (is_execute_on k) h) \<le> 1 \<Longrightarrow>
   agents_known (h @ evs) \<and> (\<forall>k. length (filter (is_execute_on k) (h @ evs)) \<le> 1)"
proof (induction xs arbitrary: rd h r evs)
  case Nil
  then show ?case by simp
next
  case (Cons x xs)
  obtain a evs1 where tb: "try_block hst st x h = (a, evs1)" by (cases "try_block hst st x h")
  note step = invariant_extend[OF Cons.prems(2,3) try_block_events[OF tb]]
  show ?case
  proof (cases a)
    case (Inr res)
    obtain r2 evs2 where rec: "run_items hst st xs (rd @ [res]) (h @ evs1) = (r2, evs2)"
      by (cases "run_items hst st xs (rd @ [res]) (h @ evs1)")
    with tb Inr Cons.prems(1) have "evs = evs1 @ evs2" by simp
    with Cons.IH[OF rec] step show ?thesis by simp
  next
    case (Inl e)
    have log: "agents_known ((h @ evs1) @ [ConsoleLog e]) \<and>
               (\<forall>k. length (filter (is_execute_on k) ((h @ evs1) @ [ConsoleLog e])) \<le> 1)"
      using step by (intro invariant_extend) simp_all
    show ?thesis
    proof (cases "continueOnFail hst")
      case False
      with tb Inl Cons.prems(1) have "evs = evs1 @ [ConsoleLog e]" by simp
      with log show ?thesis by simp
    next
      case True
      show ?thesis
      proof (cases "error_message e")
        case t: (Inl typeError)
        with tb Inl True Cons.prems(1) have "evs = evs1 @ [ConsoleLog e]" by simp
        with log show ?thesis by simp
      next
        case m: (Inr m)
        obtain r2 evs2 where rec:
          "run_items hst st xs (rd @ [error_result m x]) ((h @ evs1) @ [ConsoleLog e]) = (r2, evs2)"
          by (cases "run_items hst st xs (rd @ [error_result m x]) ((h @ evs1) @ [ConsoleLog e])")
        with tb Inl True m Cons.prems(1) have "evs = evs1 @ ConsoleLog e # evs2" by simp
        with Cons.IH[OF rec] log show ?thesis by simp
      qed
    qed
  qed
qed

lemma execute_no_reuse: "length (filter (is_execute_on k) (snd (execute hst))) \<le> 1"
proof (cases "prepare hst")
  case (Inl e)
  then show ?thesis by (simp add: execute_def)
next
  case (Inr st)
  obtain r evs where ri: "run_items hst st [0..<length (getInputData hst)] [] [] = (r, evs)"
    by (cases "run_items hst st [0..<length (getInputData hst)] [] []")
  from run_items_invariant[OF ri] have "length (filter (is_execute_on k) evs) \<le> 1"
    by (simp add: agents_known_def)
  with Inr ri show ?thesis by (simp add: execute_def split: sum.splits)
qed

section \<open>Further lemmas on the items\<close>

lemma prepare_Inr:
  "prepare hst = Inr st \<Longrightarrow>
     \<exists>parser tws creds. getOptionalOutputParser hst = Inr parser \<and> getTools hst = Inr tws \<and>
        getCredentials hst = Inr creds \<and>
        st = \<lparr>typeAgent = agentParameter hst, outputParser = parser, baseCredentials = creds,
              tools = map tool tws, plugins = filter (\<lambda>p. p \<noteq> JUndefined) (map plugin tws)\<rparr>"
  by (auto simp: prepare_def tools_and_plugins_eq split: sum.splits)

lemma registerPlugins_append:
  "registerPlugins hst k (xs @ ys) h =
     (case registerPlugins hst k xs h of
        (Inl e, evs) \<Rightarrow> (Inl e, evs)
      | (Inr u, evs) \<Rightarrow>
          (case registerPlugins hst k ys (h @ evs) of (r, evs') \<Rightarrow> (r, evs @ evs')))"
proof (induction xs arbitrary: h)
  case Nil
  show ?case by (simp add: io_return_def split: prod.splits)
next
  case (Cons x xs)
  show ?case
  proof (cases "call hst h (RegisterPlugin k x)")
    case (Inl e)
    then show ?thesis by (simp add: io_bind_def host_call_def)
  next
    case (Inr v)
    then show ?thesis
      by (simp add: io_bind_def host_call_def Cons split: prod.splits sum.splits)
  qed
qed

lemma registerPlugins_first:
  "\<exists>r evs'. registerPlugins hst k (p # ps) h = (r, RegisterPlugin k p # evs')"
  by (cases "call hst h (RegisterPlugin k p)")
     (auto simp: io_bind_def host_call_def split: prod.splits)



lemma run_agent_Inr:
  assumes "run_agent hst i k mem h = (Inr response, evs)"
  shows "\<exists>h' input arg. agentExecute hst h' k input arg = Inr response \<and> input \<noteq> JUndefined \<and>
           evs = drop (length h) h' @ [AgentExecute k input arg]"
proof (cases "call hst h (GetPromptInputByType i ''text'' ''promptType'')")
  case (Inl e)
  from run_agent_prompt_fails[OF Inl] assms show ?thesis by simp
next
  case (Inr input)
  show ?thesis
  proof (cases "input = JUndefined")
    case True
    with Inr run_agent_undefined[of hst h i k mem] assms show ?thesis by simp
  next
    case False
    show ?thesis
    proof (cases "truthy mem")
      case no: False
      from run_agent_no_memory[OF Inr False no] assms False show ?thesis
        by (intro exI[of _ "h @ [GetPromptInputByType i ''text'' ''promptType'']"] exI[of _ input]
              exI[of _ None]) simp
    next
      case yes: True
      show ?thesis
      proof (cases "call hst (h @ [GetPromptInputByType i ''text'' ''promptType'']) (LoadMemoryVariables mem)")
        case (Inl e)
        from run_agent_load_fails[OF Inr False yes Inl] assms show ?thesis by simp
      next
        case ch: (Inr chatHistory)
        from run_agent_memory[OF Inr False yes ch] assms False show ?thesis
          by (intro exI[of _ "h @ [GetPromptInputByType i ''text'' ''promptType'', LoadMemoryVariables mem]"]
                exI[of _ input] exI[of _ "Some chatHistory"]) simp
      qed
    qed
  qed
qed

lemma try_block_Inr:
  assumes "try_block hst st i h = (Inr res, evs)"
  shows "\<exists>h' k input arg agentResponse response'.
           agentExecute hst h' k input arg = Inr agentResponse \<and>
           applyOutputParser hst (outputParser st) agentResponse = Inr response' \<and>
           res = itemResult response'"
  using assms
proof (cases rule: try_block_cases)
  case (construct_fails e)
  then show ?thesis by simp
next
  case (constructed k mem evs0 r1 evs1)
  from constructed(4) obtain agentResponse response' where
    r1: "r1 = Inr agentResponse" and
    p: "applyOutputParser hst (outputParser st) agentResponse = Inr response'" and
    res: "res = itemResult response'"
    by (auto split: sum.splits)
  from run_agent_Inr[OF constructed(2)[unfolded r1]] p res show ?thesis by blast
qed

lemma get_prop_set_prop: "get_prop (set_prop r k v) k = v"
  by (simp add: get_prop_def set_prop_def update_conv')

lemma pair_fst_snd: "fst x = a \<Longrightarrow> x = (a, snd x)"
  by (cases x) simp

lemma construct_agent_no_execute:
  "construct_agent hst st i h = (r, evs) \<Longrightarrow> filter (is_execute_on k') evs = []"
  using construct_agent_events(2)[of hst st i h r evs k'] by (simp add: filter_empty_conv)

lemma build_context_memory:
  "(case build_context hst st i h of
      (Inl e, evs) \<Rightarrow> True
    | (Inr (llm, memory, rest), evs) \<Rightarrow>
        (\<exists>model. call hst h GetChatModel = Inr model \<and>
           call hst (h @ [GetChatModel]) (NewN8nLLM model) = Inr llm \<and>
           call hst (h @ [GetChatModel, NewN8nLLM model]) GetOptionalMemory = Inr memory))"
  unfolding build_context_def io_bind_def host_call_def io_return_def
  by (simp split: sum.split)

lemma construct_agent_memory:
  assumes "construct_agent hst st i h = (Inr (k, mem), evs)"
  shows "\<exists>h'. call hst h' GetOptionalMemory = Inr mem"
  using assms
proof (cases rule: construct_agent_cases)
  case (context_fails e)
  then show ?thesis by simp
next
  case (new_fails e c evs1 args)
  then show ?thesis by simp
next
  case (registering c evs1 args r2 evs2)
  from registering(4) have "mem = fst (snd c)" by (auto split: sum.splits)
  with build_context_memory[where hst=hst and st=st and i=i and h=h] registering(1) show ?thesis
    by (cases c) auto
qed

lemma construct_agent_agent_calls_Inr:
  assumes "construct_agent hst st i h = (Inr (k, mem), evs0)"
  shows "k = length (filter is_new_agent h) \<and>
         (\<exists>args. agent_calls evs0 = NewN8nBinkAgent k args # map (RegisterPlugin k) (plugins st))"
proof -
  from construct_agent_Inr[OF assms] obtain pre args where
    k: "k = length (filter is_new_agent h)" and
    evs0: "evs0 = pre @ NewN8nBinkAgent k args # map (RegisterPlugin k) (plugins st)" and
    pre: "\<forall>ev\<in>set pre. agent_of ev = None" by blast
  have "agent_calls evs0 = NewN8nBinkAgent k args # map (RegisterPlugin k) (plugins st)"
    unfolding evs0 using agent_calls_none[OF pre] agent_calls_register[of k "plugins st"]
    by (simp add: agent_calls_append) (simp add: agent_calls_def)
  with k show ?thesis by blast
qed

lemma try_block_reaches_execute:
  assumes ca: "construct_agent hst st i h = (Inr (k, mem), evs0)"
    and inp: "call hst (h @ evs0) (GetPromptInputByType i ''text'' ''promptType'') = Inr input"
    and def: "input \<noteq> JUndefined"
  shows "truthy mem \<Longrightarrow>
           call hst (h @ evs0 @ [GetPromptInputByType i ''text'' ''promptType''])
             (LoadMemoryVariables mem) = Inr chatHistory \<Longrightarrow>
           \<exists>r. try_block hst st i h =
                 (r, evs0 @ [GetPromptInputByType i ''text'' ''promptType'', LoadMemoryVariables mem,
                             AgentExecute k input (Some chatHistory)])"
    and "\<not> truthy mem \<Longrightarrow>
           \<exists>r. try_block hst st i h =
                 (r, evs0 @ [GetPromptInputByType i ''text'' ''promptType'', AgentExecute k input None])"
proof -
  assume m: "truthy mem" and l: "call hst (h @ evs0 @ [GetPromptInputByType i ''text'' ''promptType''])
             (LoadMemoryVariables mem) = Inr chatHistory"
  from l have l': "call hst ((h @ evs0) @ [GetPromptInputByType i ''text'' ''promptType''])
             (LoadMemoryVariables mem) = Inr chatHistory" by simp
  from try_block_constructed[OF ca run_agent_memory[OF inp def m l']]
  show "\<exists>r. try_block hst st i h =
                 (r, evs0 @ [GetPromptInputByType i ''text'' ''promptType'', LoadMemoryVariables mem,
                             AgentExecute k input (Some chatHistory)])" by blast
next
  assume m: "\<not> truthy mem"
  from try_block_constructed[OF ca run_agent_no_memory[OF inp def m]]
  show "\<exists>r. try_block hst st i h =
                 (r, evs0 @ [GetPromptInputByType i ''text'' ''promptType'', AgentExecute k input None])"
    by blast
qed

lemma build_context_networks:
  "(case build_context hst st i h of
      (r, evs) \<Rightarrow>
        (\<forall>urls. GetNetworksConfig urls \<in> set evs \<longrightarrow> urls = RPC_URLS (baseCredentials st)) \<and>
        (5 \<le> length evs \<longrightarrow> evs ! 4 = GetNetworksConfig (RPC_URLS (baseCredentials st))))"
  unfolding build_context_def io_bind_def host_call_def io_return_def
  by (simp split: sum.split)

lemma error_message_throws: "(\<exists>t. error_message e = Inl t) \<longleftrightarrow> e = Thrown JUndefined \<or> e = Thrown JNull"
proof (cases e)
  case (Thrown v)
  then show ?thesis by (cases v) simp_all
qed simp_all

section \<open>The claims\<close>

subsection \<open>C1\<close>

text \<open>
  C1: the result of an item is the response without the five fields \<^verbatim>\<open>system_message\<close>,
  \<^verbatim>\<open>formatting_instructions\<close>, \<^verbatim>\<open>input\<close>, \<^verbatim>\<open>chat_history\<close> and \<^verbatim>\<open>agent_scratchpad\<close>: these are
  gone, every other field keeps its value and its place, and removing them again changes
  nothing.  Every result that the \<^verbatim>\<open>try\<close> block returns is made this way from the response
  of the agent (after the step of the output parser), for every prepared state and so
  for either agent mode.
\<close>

theorem bookkeeping_fields_removed:
  "json (itemResult response) =
     filter (\<lambda>kv. fst kv \<notin> {''system_message'', ''formatting_instructions'', ''input'',
                                   ''chat_history'', ''agent_scratchpad''}) response \<and>
   (\<forall>k. map_of (json (itemResult response)) k =
      (if k \<in> {''system_message'', ''formatting_instructions'', ''input'', ''chat_history'',
                 ''agent_scratchpad''}
       then None else map_of response k)) \<and>
   json (itemResult (json (itemResult response))) = json (itemResult response) \<and>
   (\<forall>hst st i h res evs. try_block hst st i h = (Inr res, evs) \<longrightarrow>
      (\<exists>h' k input arg agentResponse response'.
         agentExecute hst h' k input arg = Inr agentResponse \<and>
         applyOutputParser hst (outputParser st) agentResponse = Inr response' \<and>
         res = itemResult response'))"
proof (intro conjI allI impI)
  show f: "json (itemResult response) =
     filter (\<lambda>kv. fst kv \<notin> {''system_message'', ''formatting_instructions'', ''input'',
                                   ''chat_history'', ''agent_scratchpad''}) response"
    by (simp add: itemResult_def omit_filter)
  show "map_of (json (itemResult response)) k =
      (if k \<in> {''system_message'', ''formatting_instructions'', ''input'', ''chat_history'',
                 ''agent_scratchpad''}
       then None else map_of response k)" for k
    unfolding f by (rule map_of_filter_keys)
  show "json (itemResult (json (itemResult response))) = json (itemResult response)"
    by (simp add: itemResult_def omit_idem)
next
  fix hst st i h res evs
  assume "try_block hst st i h = (Inr res, evs)"
  then show "\<exists>h' k input arg agentResponse response'.
         agentExecute hst h' k input arg = Inr agentResponse \<and>
         applyOutputParser hst (outputParser st) agentResponse = Inr response' \<and>
         res = itemResult response'"
    by (rule try_block_Inr)
qed

theorem bookkeeping_fields_removed_witness:
  "json (itemResult full_response) = [(''output'', JStr ''12.5''), (''intermediateSteps'', JArr [])] \<and>
   map_of (json (itemResult full_response)) ''input'' = None \<and>
   map_of (json (itemResult full_response)) ''output'' = Some (JStr ''12.5'') \<and>
   json (itemResult (json (itemResult full_response))) = json (itemResult full_response) \<and>
   fst (execute (fixture False JUndefined JUndefined [] JUndefined [JStr ''hello''])) =
     Inr [[\<lparr>json = [(''output'', JStr ''hello''), (''intermediateSteps'', JArr [])], pairedItem = None\<rparr>]] \<and>
   fst (execute ((fixture False JUndefined JUndefined [] JUndefined [JStr ''hello''])
                   \<lparr>agentParameter := ''planAndExecuteAgent''\<rparr>)) =
     Inr [[\<lparr>json = [(''output'', JStr ''hello''), (''intermediateSteps'', JArr [])], pairedItem = None\<rparr>]]"
proof -
  have run:
    "fst (execute (fixture False JUndefined JUndefined [] JUndefined [JStr ''hello''])) =
     Inr [[\<lparr>json = [(''output'', JStr ''hello''), (''intermediateSteps'', JArr [])], pairedItem = None\<rparr>]]"
    "fst (execute ((fixture False JUndefined JUndefined [] JUndefined [JStr ''hello''])
                   \<lparr>agentParameter := ''planAndExecuteAgent''\<rparr>)) =
     Inr [[\<lparr>json = [(''output'', JStr ''hello''), (''intermediateSteps'', JArr [])], pairedItem = None\<rparr>]]"
    by code_simp+
  note t = bookkeeping_fields_removed[of full_response]
  have f: "json (itemResult full_response) =
     filter (\<lambda>kv. fst kv \<notin> {''system_message'', ''formatting_instructions'', ''input'',
                                   ''chat_history'', ''agent_scratchpad''}) full_response"
    by (rule t[THEN conjunct1])
  have j: "json (itemResult full_response) = [(''output'', JStr ''12.5''), (''intermediateSteps'', JArr [])]"
    unfolding f by (simp add: full_response_def)
  have m: "map_of (json (itemResult full_response)) ''input'' = None"
    "map_of (json (itemResult full_response)) ''output'' = Some (JStr ''12.5'')"
    unfolding j by simp_all
  have i: "json (itemResult (json (itemResult full_response))) = json (itemResult full_response)"
    by (rule t[THEN conjunct2, THEN conjunct2, THEN conjunct1])
  from j m i run show ?thesis by blast
qed

subsection \<open>C2\<close>

text \<open>
  C2, as the code has it: with an output parser, \<^verbatim>\<open>response.output\<close> is given to
  \<^verbatim>\<open>jsonParse\<close>.  A parsed object with an \<^verbatim>\<open>output\<close> key whose value is neither \<^verbatim>\<open>null\<close> nor
  \<^verbatim>\<open>undefined\<close> replaces \<^verbatim>\<open>response.output\<close> by that value; a parsed object without the key,
  or with the key at \<^verbatim>\<open>null\<close>, and a parsed value that is no object replace it by the whole
  parsed value (\<^verbatim>\<open>parsedOutput?.output ?? parsedOutput\<close>); and when \<^verbatim>\<open>jsonParse\<close> throws, the
  error is thrown for the item, whose \<^verbatim>\<open>try\<close> block ends with it.
\<close>

theorem output_parser_unwraps:
  assumes "truthy parser"
  shows
   "(\<forall>obj v. jsonParse hst (get_prop response ''output'') = Inr (JObj obj) \<and>
        map_of obj ''output'' = Some v \<and> v \<noteq> JNull \<and> v \<noteq> JUndefined \<longrightarrow>
        applyOutputParser hst parser response = Inr (set_prop response ''output'' v) \<and>
        get_prop (set_prop response ''output'' v) ''output'' = v) \<and>
    (\<forall>obj. jsonParse hst (get_prop response ''output'') = Inr (JObj obj) \<and>
        map_of obj ''output'' = None \<longrightarrow>
        applyOutputParser hst parser response = Inr (set_prop response ''output'' (JObj obj))) \<and>
    (\<forall>obj. jsonParse hst (get_prop response ''output'') = Inr (JObj obj) \<and>
        map_of obj ''output'' = Some JNull \<longrightarrow>
        applyOutputParser hst parser response = Inr (set_prop response ''output'' (JObj obj))) \<and>
    (\<forall>parsed. jsonParse hst (get_prop response ''output'') = Inr parsed \<and>
        (\<forall>obj. parsed \<noteq> JObj obj) \<longrightarrow>
        applyOutputParser hst parser response = Inr (set_prop response ''output'' parsed)) \<and>
    (\<forall>e. jsonParse hst (get_prop response ''output'') = Inl e \<longrightarrow>
        applyOutputParser hst parser response = Inl e \<and>
        (\<forall>st i h k mem evs0 evs1.
           outputParser st = parser \<and> construct_agent hst st i h = (Inr (k, mem), evs0) \<and>
           run_agent hst i k mem (h @ evs0) = (Inr response, evs1) \<longrightarrow>
           try_block hst st i h = (Inl e, evs0 @ evs1)))"
proof (intro conjI allI impI; (elim conjE)?)
  fix obj v
  assume "jsonParse hst (get_prop response ''output'') = Inr (JObj obj)"
    "map_of obj ''output'' = Some v" "v \<noteq> JNull" "v \<noteq> JUndefined"
  with assms show "applyOutputParser hst parser response = Inr (set_prop response ''output'' v)"
    by (simp add: applyOutputParser_def nullish_or_def get_prop_def)
  show "get_prop (set_prop response ''output'' v) ''output'' = v"
    by (rule get_prop_set_prop)
next
  fix obj
  assume "jsonParse hst (get_prop response ''output'') = Inr (JObj obj)" "map_of obj ''output'' = None"
  with assms show "applyOutputParser hst parser response = Inr (set_prop response ''output'' (JObj obj))"
    by (simp add: applyOutputParser_def nullish_or_def get_prop_def)
next
  fix obj
  assume "jsonParse hst (get_prop response ''output'') = Inr (JObj obj)" "map_of obj ''output'' = Some JNull"
  with assms show "applyOutputParser hst parser response = Inr (set_prop response ''output'' (JObj obj))"
    by (simp add: applyOutputParser_def nullish_or_def get_prop_def)
next
  fix parsed
  assume p: "jsonParse hst (get_prop response ''output'') = Inr parsed" and "\<forall>obj. parsed \<noteq> JObj obj"
  then have "opt_output parsed = JUndefined" by (cases parsed) simp_all
  with assms p show "applyOutputParser hst parser response = Inr (set_prop response ''output'' parsed)"
    by (simp add: applyOutputParser_def nullish_or_def)
next
  fix e
  assume e: "jsonParse hst (get_prop response ''output'') = Inl e"
  with assms show a: "applyOutputParser hst parser response = Inl e"
    by (simp add: applyOutputParser_def)
  fix st i h k mem evs0 evs1
  assume "outputParser st = parser" "construct_agent hst st i h = (Inr (k, mem), evs0)"
    "run_agent hst i k mem (h @ evs0) = (Inr response, evs1)"
  with a try_block_constructed[of hst st i h k mem evs0 "Inr response" evs1]
  show "try_block hst st i h = (Inl e, evs0 @ evs1)" by simp
qed

theorem output_parser_unwraps_witness:
  \<open>truthy (JObj []) \<and>
   applyOutputParser (fixture False (JObj []) JUndefined [] JUndefined []) (JObj [])
       [(''output'', JStr ''{"output":{"a":1}}'')] =
     Inr [(''output'', JObj [(''a'', JNum 1)])] \<and>
   applyOutputParser (fixture False (JObj []) JUndefined [] JUndefined []) (JObj [])
       [(''output'', JStr ''{"a":1}'')] =
     Inr [(''output'', JObj [(''a'', JNum 1)])] \<and>
   applyOutputParser (fixture False (JObj []) JUndefined [] JUndefined []) (JObj [])
       [(''output'', JStr ''12.5 BNB'')] =
     Inl (JsError ''Unexpected token in JSON'') \<and>
   execute (fixture True (JObj []) JUndefined [] JUndefined [JStr ''12.5 BNB'', JStr ''{"a":1}'']) =
     (Inr [[\<lparr>json = [(''error'', JStr ''Unexpected token in JSON'')], pairedItem = Some 0\<rparr>,
            \<lparr>json = [(''output'', JObj [(''a'', JNum 1)]), (''intermediateSteps'', JArr [])],
              pairedItem = None\<rparr>]],
      snd (execute (fixture True (JObj []) JUndefined [] JUndefined [JStr ''12.5 BNB'', JStr ''{"a":1}''])))\<close>
proof -
  let ?h = "fixture False (JObj []) JUndefined [] JUndefined []"
  have t: "truthy (JObj [])" by simp
  note u = output_parser_unwraps[OF t, of ?h]
  have p1: \<open>jsonParse ?h (get_prop [(''output'', JStr ''{"output":{"a":1}}'')] ''output'') =
            Inr (JObj [(''output'', JObj [(''a'', JNum 1)])])\<close>
    and p2: \<open>jsonParse ?h (get_prop [(''output'', JStr ''{"a":1}'')] ''output'') = Inr (JObj [(''a'', JNum 1)])\<close>
    and p3: \<open>jsonParse ?h (get_prop [(''output'', JStr ''12.5 BNB'')] ''output'') =
            Inl (JsError ''Unexpected token in JSON'')\<close>
    by code_simp+
  from u[of \<open>[(''output'', JStr ''{"output":{"a":1}}'')]\<close>, THEN conjunct1, rule_format,
      of "[(''output'', JObj [(''a'', JNum 1)])]" "JObj [(''a'', JNum 1)]"] p1
  have a: \<open>applyOutputParser ?h (JObj []) [(''output'', JStr ''{"output":{"a":1}}'')] =
     Inr [(''output'', JObj [(''a'', JNum 1)])]\<close>
    by (simp add: set_prop_def)
  from u[of \<open>[(''output'', JStr ''{"a":1}'')]\<close>, THEN conjunct2, THEN conjunct1, rule_format,
      of "[(''a'', JNum 1)]"] p2
  have b: \<open>applyOutputParser ?h (JObj []) [(''output'', JStr ''{"a":1}'')] =
     Inr [(''output'', JObj [(''a'', JNum 1)])]\<close>
    by (simp add: set_prop_def)
  from u[of \<open>[(''output'', JStr ''12.5 BNB'')]\<close>, THEN conjunct2, THEN conjunct2, THEN conjunct2,
      THEN conjunct2, rule_format, of "JsError ''Unexpected token in JSON''"] p3
  have c: \<open>applyOutputParser ?h (JObj []) [(''output'', JStr ''12.5 BNB'')] =
     Inl (JsError ''Unexpected token in JSON'')\<close>
    by simp
  have run: \<open>fst (execute (fixture True (JObj []) JUndefined [] JUndefined [JStr ''12.5 BNB'', JStr ''{"a":1}''])) =
     Inr [[\<lparr>json = [(''error'', JStr ''Unexpected token in JSON'')], pairedItem = Some 0\<rparr>,
            \<lparr>json = [(''output'', JObj [(''a'', JNum 1)]), (''intermediateSteps'', JArr [])],
              pairedItem = None\<rparr>]]\<close>
    by code_simp
  have pair: "x = (fst x, snd x)" for x :: "(js_error + item_result list list) \<times> event list"
    by simp
  from t a b c run show ?thesis
    by (metis pair)
qed

text \<open>
  C2 as stated fails where the parsed object has its \<^verbatim>\<open>output\<close> key at \<^verbatim>\<open>null\<close>: the item's
  output is the whole parsed object and not the value of the key.
\<close>

theorem output_parser_unwraps_counterexample:
  \<open>jsonParse (fixture False (JObj []) JUndefined [] JUndefined [JStr ''{"output":null}''])
      (JStr ''{"output":null}'') = Inr (JObj [(''output'', JNull)]) \<and>
   fst (execute (fixture False (JObj []) JUndefined [] JUndefined [JStr ''{"output":null}''])) =
     Inr [[\<lparr>json = [(''output'', JObj [(''output'', JNull)]), (''intermediateSteps'', JArr [])],
            pairedItem = None\<rparr>]] \<and>
   fst (execute (fixture False (JObj []) JUndefined [] JUndefined [JStr ''{"output":null}''])) \<noteq>
     Inr [[\<lparr>json = [(''output'', JNull), (''intermediateSteps'', JArr [])], pairedItem = None\<rparr>]]\<close>
  by code_simp

subsection \<open>C3\<close>

text \<open>
  C3: let item \<open>j\<close> of a batch throw \<open>e\<close> in its \<^verbatim>\<open>try\<close> block, the items before it having
  left the results \<open>returnData\<close>.  Without continue-on-fail the node throws \<open>e\<close>; the calls
  end with the logging of \<open>e\<close>, so that no later item is touched.  With continue-on-fail,
  when \<^verbatim>\<open>error.message\<close> can be read, the result of item \<open>j\<close> is \<^verbatim>\<open>{ error: message }\<close> (or
  \<^verbatim>\<open>An error occurred\<close> for a message that is missing or empty) paired with \<open>j\<close>, the loop
  goes on with item \<open>j + 1\<close>, and a run that returns has one result per item.  But when
  the thrown value is \<^verbatim>\<open>undefined\<close> or \<^verbatim>\<open>null\<close>, and only then, reading \<^verbatim>\<open>error.message\<close> at
  line 380 throws a TypeError inside the \<^verbatim>\<open>catch\<close> block: the node throws it and the batch
  ends at item \<open>j\<close>, continue-on-fail or not.
\<close>

theorem failure_isolation:
  assumes "prepare hst = Inr st"
    and "j < length (getInputData hst)"
    and "run_items hst st [0..<j] [] [] = (Inr returnData, evs0)"
    and "try_block hst st j evs0 = (Inl e, evs)"
  shows
    "(\<not> continueOnFail hst \<longrightarrow> execute hst = (Inl e, evs0 @ evs @ [ConsoleLog e])) \<and>
     (continueOnFail hst \<longrightarrow>
        (\<forall>m. error_message e = Inr m \<longrightarrow>
           (\<exists>r evs'.
              run_items hst st [Suc j..<length (getInputData hst)] (returnData @ [error_result m j])
                 (evs0 @ evs @ [ConsoleLog e]) = (r, evs') \<and>
              execute hst =
                ((case r of Inl a \<Rightarrow> Inl a | Inr rs \<Rightarrow> Inr [rs]),
                 evs0 @ evs @ ConsoleLog e # evs') \<and>
              (\<forall>rs. r = Inr rs \<longrightarrow>
                 length rs = length (getInputData hst) \<and> take j rs = returnData \<and>
                 rs ! j = error_result m j))) \<and>
        (\<forall>t. error_message e = Inl t \<longrightarrow> execute hst = (Inl t, evs0 @ evs @ [ConsoleLog e]))) \<and>
     ((\<exists>t. error_message e = Inl t) \<longleftrightarrow> e = Thrown JUndefined \<or> e = Thrown JNull) \<and>
     json (error_result m' j) = [(''error'', js_or m' (JStr ''An error occurred''))] \<and>
     pairedItem (error_result m' j) = Some j"
proof (intro conjI impI allI)
  assume "\<not> continueOnFail hst"
  from execute_failing_item_abort[OF assms this]
  show "execute hst = (Inl e, evs0 @ evs @ [ConsoleLog e])" .
next
  fix m
  assume "continueOnFail hst" "error_message e = Inr m"
  from execute_failing_item_continue[OF assms this]
  show "\<exists>r evs'.
              run_items hst st [Suc j..<length (getInputData hst)] (returnData @ [error_result m j])
                 (evs0 @ evs @ [ConsoleLog e]) = (r, evs') \<and>
              execute hst =
                ((case r of Inl a \<Rightarrow> Inl a | Inr rs \<Rightarrow> Inr [rs]),
                 evs0 @ evs @ ConsoleLog e # evs') \<and>
              (\<forall>rs. r = Inr rs \<longrightarrow>
                 length rs = length (getInputData hst) \<and> take j rs = returnData \<and>
                 rs ! j = error_result m j)" .
next
  fix t
  assume "continueOnFail hst" "error_message e = Inl t"
  from execute_failing_item_type_error[OF assms this]
  show "execute hst = (Inl t, evs0 @ evs @ [ConsoleLog e])" .
next
  show "(\<exists>t. error_message e = Inl t) \<longleftrightarrow> e = Thrown JUndefined \<or> e = Thrown JNull"
    by (rule error_message_throws)
qed (simp_all add: error_result_def)

theorem failure_isolation_witness:
  "fst (execute (fixture False JUndefined JUndefined [] JUndefined [JStr ''hello'', JStr ''fail'', JStr ''bye''])) =
     Inl (JsError ''model unavailable'') \<and>
   last (snd (execute (fixture False JUndefined JUndefined [] JUndefined [JStr ''hello'', JStr ''fail'', JStr ''bye'']))) =
     ConsoleLog (JsError ''model unavailable'') \<and>
   (\<exists>rs. fst (execute (fixture True JUndefined JUndefined [] JUndefined [JStr ''hello'', JStr ''fail'', JStr ''bye''])) =
             Inr [rs] \<and>
          length rs = 3 \<and>
          rs ! 1 = \<lparr>json = [(''error'', JStr ''model unavailable'')], pairedItem = Some 1\<rparr>) \<and>
   fst (execute (fixture True JUndefined JUndefined [] JUndefined [JStr ''hello'', JStr ''reject'', JStr ''bye''])) =
     Inl (JsError ''Cannot read properties of undefined (reading 'message')'') \<and>
   last (snd (execute (fixture True JUndefined JUndefined [] JUndefined
                         [JStr ''hello'', JStr ''reject'', JStr ''bye'']))) =
     ConsoleLog (Thrown JUndefined)"
proof -
  let ?stop = "fixture False JUndefined JUndefined [] JUndefined [JStr ''hello'', JStr ''fail'', JStr ''bye'']"
  let ?go = "fixture True JUndefined JUndefined [] JUndefined [JStr ''hello'', JStr ''fail'', JStr ''bye'']"
  let ?rej = "fixture True JUndefined JUndefined [] JUndefined [JStr ''hello'', JStr ''reject'', JStr ''bye'']"
  let ?rd = "[\<lparr>json = [(''output'', JStr ''hello''), (''intermediateSteps'', JArr [])], pairedItem = None\<rparr>]"
  let ?e = "JsError ''model unavailable''"
  have p1: "prepare ?stop = Inr plain_prepared" and p2: "prepare ?go = Inr plain_prepared"
    and p3: "prepare ?rej = Inr plain_prepared"
    by code_simp+
  have n1: "1 < length (getInputData ?stop)" and n2: "1 < length (getInputData ?go)"
    and n3: "1 < length (getInputData ?rej)"
    by (simp_all add: fixture_def)
  have "fst (run_items ?stop plain_prepared [0..<1] [] []) = Inr ?rd"
    by code_simp
  then have b1: "run_items ?stop plain_prepared [0..<1] [] [] =
                   (Inr ?rd, snd (run_items ?stop plain_prepared [0..<1] [] []))"
    by (rule pair_fst_snd)
  have "fst (try_block ?stop plain_prepared 1 (snd (run_items ?stop plain_prepared [0..<1] [] []))) = Inl ?e"
    by code_simp
  then have f1: "try_block ?stop plain_prepared 1 (snd (run_items ?stop plain_prepared [0..<1] [] [])) =
      (Inl ?e, snd (try_block ?stop plain_prepared 1 (snd (run_items ?stop plain_prepared [0..<1] [] []))))"
    by (rule pair_fst_snd)
  have "fst (run_items ?go plain_prepared [0..<1] [] []) = Inr ?rd"
    by code_simp
  then have b2: "run_items ?go plain_prepared [0..<1] [] [] =
                   (Inr ?rd, snd (run_items ?go plain_prepared [0..<1] [] []))"
    by (rule pair_fst_snd)
  have "fst (try_block ?go plain_prepared 1 (snd (run_items ?go plain_prepared [0..<1] [] []))) = Inl ?e"
    by code_simp
  then have f2: "try_block ?go plain_prepared 1 (snd (run_items ?go plain_prepared [0..<1] [] [])) =
      (Inl ?e, snd (try_block ?go plain_prepared 1 (snd (run_items ?go plain_prepared [0..<1] [] []))))"
    by (rule pair_fst_snd)
  have "fst (run_items ?rej plain_prepared [0..<1] [] []) = Inr ?rd"
    by code_simp
  then have b3: "run_items ?rej plain_prepared [0..<1] [] [] =
                   (Inr ?rd, snd (run_items ?rej plain_prepared [0..<1] [] []))"
    by (rule pair_fst_snd)
  have "fst (try_block ?rej plain_prepared 1 (snd (run_items ?rej plain_prepared [0..<1] [] []))) =
          Inl (Thrown JUndefined)"
    by code_simp
  then have f3: "try_block ?rej plain_prepared 1 (snd (run_items ?rej plain_prepared [0..<1] [] [])) =
      (Inl (Thrown JUndefined),
       snd (try_block ?rej plain_prepared 1 (snd (run_items ?rej plain_prepared [0..<1] [] []))))"
    by (rule pair_fst_snd)
  have c1: "\<not> continueOnFail ?stop" and c2: "continueOnFail ?go" and c3: "continueOnFail ?rej"
    by (simp_all add: fixture_def)
  note s = failure_isolation[OF p1 n1 b1 f1]
  note g = failure_isolation[OF p2 n2 b2 f2]
  note r = failure_isolation[OF p3 n3 b3 f3]
  from s[THEN conjunct1] c1 have stop: "execute ?stop =
      (Inl ?e, snd (run_items ?stop plain_prepared [0..<1] [] []) @
               snd (try_block ?stop plain_prepared 1 (snd (run_items ?stop plain_prepared [0..<1] [] []))) @
               [ConsoleLog ?e])"
    by blast
  have em: "error_message ?e = Inr (JStr ''model unavailable'')" by simp
  from g[THEN conjunct2, THEN conjunct1] c2 em obtain res evs' where
    go: "execute ?go = ((case res of Inl a \<Rightarrow> Inl a | Inr rs \<Rightarrow> Inr [rs]),
               snd (run_items ?go plain_prepared [0..<1] [] []) @
               snd (try_block ?go plain_prepared 1 (snd (run_items ?go plain_prepared [0..<1] [] []))) @
               ConsoleLog ?e # evs')"
    and fin: "\<forall>rs. res = Inr rs \<longrightarrow> length rs = length (getInputData ?go) \<and>
                 rs ! 1 = error_result (JStr ''model unavailable'') 1"
    by blast
  have "fst (execute ?go) =
          Inr [[\<lparr>json = [(''output'', JStr ''hello''), (''intermediateSteps'', JArr [])], pairedItem = None\<rparr>,
                \<lparr>json = [(''error'', JStr ''model unavailable'')], pairedItem = Some 1\<rparr>,
                \<lparr>json = [(''output'', JStr ''bye''), (''intermediateSteps'', JArr [])], pairedItem = None\<rparr>]]"
    by code_simp
  with go obtain rs where res: "res = Inr rs" by (cases res) auto
  with fin have len: "length rs = length (getInputData ?go)"
    and at: "rs ! 1 = error_result (JStr ''model unavailable'') 1" by blast+
  from len have len3: "length rs = 3" by (simp add: fixture_def)
  from at have at': "rs ! 1 = \<lparr>json = [(''error'', JStr ''model unavailable'')], pairedItem = Some 1\<rparr>"
    by (simp add: error_result_def js_or_def)
  have et: "error_message (Thrown JUndefined) =
              Inl (JsError ''Cannot read properties of undefined (reading 'message')'')" by simp
  from r[THEN conjunct2, THEN conjunct1] c3 et have rej: "execute ?rej =
      (Inl (JsError ''Cannot read properties of undefined (reading 'message')''),
       snd (run_items ?rej plain_prepared [0..<1] [] []) @
       snd (try_block ?rej plain_prepared 1 (snd (run_items ?rej plain_prepared [0..<1] [] []))) @
       [ConsoleLog (Thrown JUndefined)])"
    by blast
  from stop have "fst (execute ?stop) = Inl ?e" "last (snd (execute ?stop)) = ConsoleLog ?e"
    by simp_all
  moreover from go res len3 at' have "\<exists>rs. fst (execute ?go) = Inr [rs] \<and> length rs = 3 \<and>
          rs ! 1 = \<lparr>json = [(''error'', JStr ''model unavailable'')], pairedItem = Some 1\<rparr>"
    by simp
  moreover from rej have
    "fst (execute ?rej) = Inl (JsError ''Cannot read properties of undefined (reading 'message')'')"
    "last (snd (execute ?rej)) = ConsoleLog (Thrown JUndefined)"
    by simp_all
  ultimately show ?thesis by blast
qed

subsection \<open>C4\<close>

text \<open>
  C4: the tools view holds the tool of every discovered entry, in discovery order; the
  plugins view holds the plugin handles that are not \<^verbatim>\<open>undefined\<close>, duplicates included, in
  their order, the absent ones dropped by the filter of line 292, which compares with
  \<^verbatim>\<open>undefined\<close>; these two views are what the loop works with.
\<close>

theorem tools_and_plugins_views:
  "fst (tools_and_plugins toolsWithPlugins) = map tool toolsWithPlugins \<and>
   snd (tools_and_plugins toolsWithPlugins) =
     filter (\<lambda>p. p \<noteq> JUndefined) (map plugin toolsWithPlugins) \<and>
   (\<forall>hst st. prepare hst = Inr st \<longrightarrow>
      (\<exists>tws. getTools hst = Inr tws \<and> tools st = fst (tools_and_plugins tws) \<and>
         plugins st = snd (tools_and_plugins tws)))"
proof (intro conjI allI impI)
  fix hst st assume "prepare hst = Inr st"
  from prepare_Inr[OF this]
  show "\<exists>tws. getTools hst = Inr tws \<and> tools st = fst (tools_and_plugins tws) \<and>
         plugins st = snd (tools_and_plugins tws)"
    by (auto simp: tools_and_plugins_eq)
qed (simp_all add: tools_and_plugins_eq)

theorem tools_and_plugins_views_witness:
  "prepare (fixture False JUndefined JUndefined three_tools JUndefined []) =
     Inr \<lparr>typeAgent = ''toolsAgent'', outputParser = JUndefined,
          baseCredentials = \<lparr>bnbRpcUrl = JStr ''https://bsc.example'', ethRpcUrl = JStr [],
                               solRpcUrl = JUndefined, mnemonic = JUndefined\<rparr>,
          tools = [JStr ''swap'', JStr ''clock'', JStr ''bridge'', JStr ''quote''],
          plugins = [JObj [(''name'', JStr ''swap'')], JNull, JObj [(''name'', JStr ''swap'')]]\<rparr> \<and>
   fst (tools_and_plugins three_tools) = [JStr ''swap'', JStr ''clock'', JStr ''bridge'', JStr ''quote''] \<and>
   snd (tools_and_plugins three_tools) =
     [JObj [(''name'', JStr ''swap'')], JNull, JObj [(''name'', JStr ''swap'')]]"
proof -
  have p: "prepare (fixture False JUndefined JUndefined three_tools JUndefined []) =
     Inr \<lparr>typeAgent = ''toolsAgent'', outputParser = JUndefined,
          baseCredentials = \<lparr>bnbRpcUrl = JStr ''https://bsc.example'', ethRpcUrl = JStr [],
                               solRpcUrl = JUndefined, mnemonic = JUndefined\<rparr>,
          tools = [JStr ''swap'', JStr ''clock'', JStr ''bridge'', JStr ''quote''],
          plugins = [JObj [(''name'', JStr ''swap'')], JNull, JObj [(''name'', JStr ''swap'')]]\<rparr>"
    by code_simp
  from tools_and_plugins_views[of three_tools] p show ?thesis
    by (simp add: three_tools_def)
qed

subsection \<open>C5\<close>



subsection \<open>C6\<close>

text \<open>
  C6, as the code has it.  In a whole run no agent instance is executed twice.  The
  agent calls of one item are an initial part of: the construction of an instance that
  did not exist before, the registration of every plugin of the compacted list on it, in
  order, and one execution of it.  They are all of that, the execution included,
  whenever the item raises nothing before it: the agent is constructed with its plugins
  registered, the prompt input is defined, and the memory, if there is one, loads.  They
  stop after the registrations when the prompt input is \<^verbatim>\<open>undefined\<close>.
\<close>

theorem fresh_agent_executes_once:
  "length (filter (is_execute_on k) (snd (execute hst))) \<le> 1 \<and>
   (\<forall>st i h r evs. try_block hst st i h = (r, evs) \<longrightarrow>
      (\<exists>args input arg.
         prefix (agent_calls evs)
           (NewN8nBinkAgent (length (filter is_new_agent h)) args #
            map (RegisterPlugin (length (filter is_new_agent h))) (plugins st) @
            [AgentExecute (length (filter is_new_agent h)) input arg]))) \<and>
   (\<forall>st i h n mem evs0 input.
      construct_agent hst st i h = (Inr (n, mem), evs0) \<and>
      call hst (h @ evs0) (GetPromptInputByType i ''text'' ''promptType'') = Inr input \<and>
      input \<noteq> JUndefined \<and>
      (truthy mem \<longrightarrow>
         (\<exists>chatHistory. call hst (h @ evs0 @ [GetPromptInputByType i ''text'' ''promptType''])
                          (LoadMemoryVariables mem) = Inr chatHistory)) \<longrightarrow>
      (\<exists>r evs args arg.
         try_block hst st i h = (r, evs) \<and> n = length (filter is_new_agent h) \<and>
         agent_calls evs =
           NewN8nBinkAgent n args # map (RegisterPlugin n) (plugins st) @ [AgentExecute n input arg])) \<and>
   (\<forall>st i h n mem evs0.
      construct_agent hst st i h = (Inr (n, mem), evs0) \<and>
      call hst (h @ evs0) (GetPromptInputByType i ''text'' ''promptType'') = Inr JUndefined \<longrightarrow>
      (\<exists>r evs args.
         try_block hst st i h = (r, evs) \<and>
         agent_calls evs = NewN8nBinkAgent n args # map (RegisterPlugin n) (plugins st)))"
proof (intro conjI allI impI)
  show "length (filter (is_execute_on k) (snd (execute hst))) \<le> 1"
    by (rule execute_no_reuse)
next
  fix st i h n mem evs0
  assume a: "construct_agent hst st i h = (Inr (n, mem), evs0) \<and>
      call hst (h @ evs0) (GetPromptInputByType i ''text'' ''promptType'') = Inr JUndefined"
  then have ca: "construct_agent hst st i h = (Inr (n, mem), evs0)"
    and inp: "call hst (h @ evs0) (GetPromptInputByType i ''text'' ''promptType'') = Inr JUndefined"
    by blast+
  from construct_agent_agent_calls_Inr[OF ca] obtain args where
    a0: "agent_calls evs0 = NewN8nBinkAgent n args # map (RegisterPlugin n) (plugins st)" by blast
  from try_block_constructed[OF ca run_agent_undefined[OF inp]] obtain r where
    tb: "try_block hst st i h = (r, evs0 @ [GetPromptInputByType i ''text'' ''promptType''])"
    by simp
  have "agent_calls (evs0 @ [GetPromptInputByType i ''text'' ''promptType'']) =
          NewN8nBinkAgent n args # map (RegisterPlugin n) (plugins st)"
    using a0 by (simp add: agent_calls_append) (simp add: agent_calls_def)
  with tb show "\<exists>r evs args.
         try_block hst st i h = (r, evs) \<and>
         agent_calls evs = NewN8nBinkAgent n args # map (RegisterPlugin n) (plugins st)"
    by blast
next
  fix st i h r evs
  assume "try_block hst st i h = (r, evs)"
  then show "\<exists>args input arg.
         prefix (agent_calls evs)
           (NewN8nBinkAgent (length (filter is_new_agent h)) args #
            map (RegisterPlugin (length (filter is_new_agent h))) (plugins st) @
            [AgentExecute (length (filter is_new_agent h)) input arg])"
    by (rule try_block_agent_calls)
next
  fix st i h n mem evs0 input
  assume a: "construct_agent hst st i h = (Inr (n, mem), evs0) \<and>
      call hst (h @ evs0) (GetPromptInputByType i ''text'' ''promptType'') = Inr input \<and>
      input \<noteq> JUndefined \<and>
      (truthy mem \<longrightarrow>
         (\<exists>chatHistory. call hst (h @ evs0 @ [GetPromptInputByType i ''text'' ''promptType''])
                          (LoadMemoryVariables mem) = Inr chatHistory))"
  then have ca: "construct_agent hst st i h = (Inr (n, mem), evs0)"
    and inp: "call hst (h @ evs0) (GetPromptInputByType i ''text'' ''promptType'') = Inr input"
    and def: "input \<noteq> JUndefined" by blast+
  from construct_agent_agent_calls_Inr[OF ca] obtain args where
    n: "n = length (filter is_new_agent h)" and
    a0: "agent_calls evs0 = NewN8nBinkAgent n args # map (RegisterPlugin n) (plugins st)" by blast
  show "\<exists>r evs args arg.
         try_block hst st i h = (r, evs) \<and> n = length (filter is_new_agent h) \<and>
         agent_calls evs =
           NewN8nBinkAgent n args # map (RegisterPlugin n) (plugins st) @ [AgentExecute n input arg]"
  proof (cases "truthy mem")
    case True
    with a obtain chatHistory where
      "call hst (h @ evs0 @ [GetPromptInputByType i ''text'' ''promptType''])
          (LoadMemoryVariables mem) = Inr chatHistory" by blast
    from try_block_reaches_execute(1)[OF ca inp def True this] obtain r where
      tb: "try_block hst st i h =
             (r, evs0 @ [GetPromptInputByType i ''text'' ''promptType'', LoadMemoryVariables mem,
                         AgentExecute n input (Some chatHistory)])" by blast
    have "agent_calls (evs0 @ [GetPromptInputByType i ''text'' ''promptType'', LoadMemoryVariables mem,
                         AgentExecute n input (Some chatHistory)]) =
           NewN8nBinkAgent n args # map (RegisterPlugin n) (plugins st) @
           [AgentExecute n input (Some chatHistory)]"
      using a0 by (simp add: agent_calls_append) (simp add: agent_calls_def)
    with tb n show ?thesis by blast
  next
    case False
    from try_block_reaches_execute(2)[OF ca inp def False] obtain r where
      tb: "try_block hst st i h =
             (r, evs0 @ [GetPromptInputByType i ''text'' ''promptType'', AgentExecute n input None])"
      by blast
    have "agent_calls (evs0 @ [GetPromptInputByType i ''text'' ''promptType'', AgentExecute n input None]) =
           NewN8nBinkAgent n args # map (RegisterPlugin n) (plugins st) @ [AgentExecute n input None]"
      using a0 by (simp add: agent_calls_append) (simp add: agent_calls_def)
    with tb n show ?thesis by blast
  qed
qed

theorem fresh_agent_executes_once_witness:
  "length (filter (is_execute_on 0)
     (snd (execute (fixture False JUndefined JUndefined three_tools JUndefined [JStr ''hello'', JStr ''bye''])))) \<le> 1 \<and>
   map agent_of
     (agent_calls (snd (execute (fixture False JUndefined JUndefined three_tools JUndefined
                                   [JStr ''hello'', JStr ''bye''])))) =
     [Some 0, Some 0, Some 0, Some 0, Some 0, Some 1, Some 1, Some 1, Some 1, Some 1] \<and>
   (\<exists>r evs args arg.
      try_block (fixture False JUndefined JUndefined three_tools JUndefined [JStr ''hello'', JStr ''bye''])
        three_prepared 0 [] = (r, evs) \<and>
      agent_calls evs =
        NewN8nBinkAgent 0 args #
        [RegisterPlugin 0 (JObj [(''name'', JStr ''swap'')]), RegisterPlugin 0 JNull,
         RegisterPlugin 0 (JObj [(''name'', JStr ''swap'')]), AgentExecute 0 (JStr ''hello'') arg])"
proof -
  let ?h = "fixture False JUndefined JUndefined three_tools JUndefined [JStr ''hello'', JStr ''bye'']"
  note t = fresh_agent_executes_once[of 0 ?h]
  have "fst (construct_agent ?h three_prepared 0 []) = Inr (0, JUndefined)"
    by code_simp
  then have ca: "construct_agent ?h three_prepared 0 [] =
                   (Inr (0, JUndefined), snd (construct_agent ?h three_prepared 0 []))"
    by (rule pair_fst_snd)
  have inp: "call ?h ([] @ snd (construct_agent ?h three_prepared 0 []))
               (GetPromptInputByType 0 ''text'' ''promptType'') = Inr (JStr ''hello'')"
    by (simp add: fixture_def)
  from t[THEN conjunct2, THEN conjunct2, THEN conjunct1, rule_format,
      of three_prepared 0 "[]" 0 JUndefined "snd (construct_agent ?h three_prepared 0 [])" "JStr ''hello''"]
    ca inp
  have third: "\<exists>r evs args arg.
      try_block ?h three_prepared 0 [] = (r, evs) \<and>
      agent_calls evs =
        NewN8nBinkAgent 0 args #
        [RegisterPlugin 0 (JObj [(''name'', JStr ''swap'')]), RegisterPlugin 0 JNull,
         RegisterPlugin 0 (JObj [(''name'', JStr ''swap'')]), AgentExecute 0 (JStr ''hello'') arg]"
    by (simp add: three_prepared_def)
  have ids: "map agent_of (agent_calls (snd (execute ?h))) =
     [Some 0, Some 0, Some 0, Some 0, Some 0, Some 1, Some 1, Some 1, Some 1, Some 1]"
    by code_simp
  from t[THEN conjunct1] ids third show ?thesis by blast
qed

text \<open>
  C6 as stated fails on an item whose prompt input is \<^verbatim>\<open>undefined\<close>: its agent is
  constructed, the plugins are registered on it, and the guard of line 344 throws before
  \<^verbatim>\<open>execute\<close> is called, so the instance is executed zero times, not once.
\<close>

theorem fresh_agent_executes_once_counterexample:
  "length (getInputData (fixture False JUndefined JUndefined three_tools JUndefined [JUndefined])) = 1 \<and>
   agent_calls (snd (execute (fixture False JUndefined JUndefined three_tools JUndefined [JUndefined]))) =
     [NewN8nBinkAgent 0
        [JObj [], JStr ''toolsAgent'', JUndefined,
         JArr [JStr ''swap'', JStr ''clock'', JStr ''bridge'', JStr ''quote''], JUndefined,
         JObj [(''temperature'', JNum (1 / 2)), (''systemPrompt'', JStr ''You are an agent.'')],
         JObj [], JObj [], JObj []],
      RegisterPlugin 0 (JObj [(''name'', JStr ''swap'')]),
      RegisterPlugin 0 JNull,
      RegisterPlugin 0 (JObj [(''name'', JStr ''swap'')])] \<and>
   length (filter (is_execute_on 0)
     (snd (execute (fixture False JUndefined JUndefined three_tools JUndefined [JUndefined])))) = 0"
  by code_simp

subsection \<open>C7\<close>

text \<open>
  C7, as the code has it: for an item whose agent is constructed and whose prompt input
  is defined, \<open>mem\<close> being what \<^verbatim>\<open>getOptionalMemory\<close> returned for the item.  If \<open>mem\<close> is there
  (\<^verbatim>\<open>if (memory)\<close>) the driver calls \<^verbatim>\<open>loadMemoryVariables\<close> on it and, when that returns, calls
  \<^verbatim>\<open>execute\<close> with the input and the loaded state as second argument, in this order and
  with nothing between; if \<open>mem\<close> is not there, \<^verbatim>\<open>execute\<close> is called with the input alone.
\<close>

theorem memory_passed_to_execute:
  assumes "construct_agent hst st i h = (Inr (k, mem), evs0)"
    and "call hst (h @ evs0) (GetPromptInputByType i ''text'' ''promptType'') = Inr input"
    and "input \<noteq> JUndefined"
  shows
    "(\<exists>h'. call hst h' GetOptionalMemory = Inr mem) \<and>
     (truthy mem \<longrightarrow>
        (\<forall>chatHistory.
           call hst (h @ evs0 @ [GetPromptInputByType i ''text'' ''promptType''])
             (LoadMemoryVariables mem) = Inr chatHistory \<longrightarrow>
           run_agent hst i k mem (h @ evs0) =
             (agentExecute hst
                (h @ evs0 @ [GetPromptInputByType i ''text'' ''promptType'', LoadMemoryVariables mem])
                k input (Some chatHistory),
              [GetPromptInputByType i ''text'' ''promptType'', LoadMemoryVariables mem,
               AgentExecute k input (Some chatHistory)]) \<and>
           (\<exists>r. try_block hst st i h =
                  (r, evs0 @ [GetPromptInputByType i ''text'' ''promptType'', LoadMemoryVariables mem,
                              AgentExecute k input (Some chatHistory)])))) \<and>
     (\<not> truthy mem \<longrightarrow>
        run_agent hst i k mem (h @ evs0) =
          (agentExecute hst (h @ evs0 @ [GetPromptInputByType i ''text'' ''promptType'']) k input None,
           [GetPromptInputByType i ''text'' ''promptType'', AgentExecute k input None]) \<and>
        (\<exists>r. try_block hst st i h =
               (r, evs0 @ [GetPromptInputByType i ''text'' ''promptType'', AgentExecute k input None])))"
proof (intro conjI allI impI)
  show "\<exists>h'. call hst h' GetOptionalMemory = Inr mem"
    by (rule construct_agent_memory[OF assms(1)])
next
  fix chatHistory
  assume m: "truthy mem" and l: "call hst (h @ evs0 @ [GetPromptInputByType i ''text'' ''promptType''])
             (LoadMemoryVariables mem) = Inr chatHistory"
  from l have l': "call hst ((h @ evs0) @ [GetPromptInputByType i ''text'' ''promptType''])
             (LoadMemoryVariables mem) = Inr chatHistory" by simp
  from run_agent_memory[OF assms(2,3) m l']
  show "run_agent hst i k mem (h @ evs0) =
             (agentExecute hst
                (h @ evs0 @ [GetPromptInputByType i ''text'' ''promptType'', LoadMemoryVariables mem])
                k input (Some chatHistory),
              [GetPromptInputByType i ''text'' ''promptType'', LoadMemoryVariables mem,
               AgentExecute k input (Some chatHistory)])" by simp
  from try_block_reaches_execute(1)[OF assms m l]
  show "\<exists>r. try_block hst st i h =
                  (r, evs0 @ [GetPromptInputByType i ''text'' ''promptType'', LoadMemoryVariables mem,
                              AgentExecute k input (Some chatHistory)])" .
next
  assume m: "\<not> truthy mem"
  from run_agent_no_memory[OF assms(2,3) m]
  show "run_agent hst i k mem (h @ evs0) =
          (agentExecute hst (h @ evs0 @ [GetPromptInputByType i ''text'' ''promptType'']) k input None,
           [GetPromptInputByType i ''text'' ''promptType'', AgentExecute k input None])" by simp
  from try_block_reaches_execute(2)[OF assms m]
  show "\<exists>r. try_block hst st i h =
               (r, evs0 @ [GetPromptInputByType i ''text'' ''promptType'', AgentExecute k input None])" .
qed

theorem memory_passed_to_execute_witness:
  "drop 9 (snd (try_block (fixture False JUndefined (JObj [(''sessionId'', JStr ''s1'')]) [] JUndefined
                             [JStr ''hello'']) plain_prepared 0 [])) =
     [LoadMemoryVariables (JObj [(''sessionId'', JStr ''s1'')]),
      AgentExecute 0 (JStr ''hello'') (Some (JObj [(''chat_history'', JArr [])]))] \<and>
   drop 9 (snd (try_block (fixture False JUndefined JUndefined [] JUndefined [JStr ''hello''])
                   plain_prepared 0 [])) =
     [AgentExecute 0 (JStr ''hello'') None]"
proof -
  let ?m = "JObj [(''sessionId'', JStr ''s1'')]"
  let ?with = "fixture False JUndefined ?m [] JUndefined [JStr ''hello'']"
  let ?without = "fixture False JUndefined JUndefined [] JUndefined [JStr ''hello'']"
  have "fst (construct_agent ?with plain_prepared 0 []) = Inr (0, ?m)"
    by code_simp
  then have ca1: "construct_agent ?with plain_prepared 0 [] =
                   (Inr (0, ?m), snd (construct_agent ?with plain_prepared 0 []))"
    by (rule pair_fst_snd)
  have "fst (construct_agent ?without plain_prepared 0 []) = Inr (0, JUndefined)"
    by code_simp
  then have ca2: "construct_agent ?without plain_prepared 0 [] =
                   (Inr (0, JUndefined), snd (construct_agent ?without plain_prepared 0 []))"
    by (rule pair_fst_snd)
  have len1: "length (snd (construct_agent ?with plain_prepared 0 [])) = 8"
    and len2: "length (snd (construct_agent ?without plain_prepared 0 [])) = 8"
    by code_simp+
  have i1: "call ?with ([] @ snd (construct_agent ?with plain_prepared 0 []))
               (GetPromptInputByType 0 ''text'' ''promptType'') = Inr (JStr ''hello'')"
    and i2: "call ?without ([] @ snd (construct_agent ?without plain_prepared 0 []))
               (GetPromptInputByType 0 ''text'' ''promptType'') = Inr (JStr ''hello'')"
    by (simp_all add: fixture_def)
  have l1: "call ?with ([] @ snd (construct_agent ?with plain_prepared 0 []) @
                 [GetPromptInputByType 0 ''text'' ''promptType''])
               (LoadMemoryVariables ?m) = Inr (JObj [(''chat_history'', JArr [])])"
    by (simp add: fixture_def)
  from memory_passed_to_execute[OF ca1 i1, THEN conjunct2, THEN conjunct1, rule_format, OF _ _ l1]
  obtain r1 where "try_block ?with plain_prepared 0 [] =
      (r1, snd (construct_agent ?with plain_prepared 0 []) @
           [GetPromptInputByType 0 ''text'' ''promptType'', LoadMemoryVariables ?m,
            AgentExecute 0 (JStr ''hello'') (Some (JObj [(''chat_history'', JArr [])]))])"
    by auto
  with len1 have a: "drop 9 (snd (try_block ?with plain_prepared 0 [])) =
     [LoadMemoryVariables ?m, AgentExecute 0 (JStr ''hello'') (Some (JObj [(''chat_history'', JArr [])]))]"
    by simp
  from memory_passed_to_execute[OF ca2 i2, THEN conjunct2, THEN conjunct2, rule_format]
  obtain r2 where "try_block ?without plain_prepared 0 [] =
      (r2, snd (construct_agent ?without plain_prepared 0 []) @
           [GetPromptInputByType 0 ''text'' ''promptType'', AgentExecute 0 (JStr ''hello'') None])"
    by auto
  with len2 have b: "drop 9 (snd (try_block ?without plain_prepared 0 [])) =
     [AgentExecute 0 (JStr ''hello'') None]"
    by simp
  from a b show ?thesis by blast
qed

text \<open>
  C7 as stated fails on an item whose prompt input is \<^verbatim>\<open>undefined\<close>: with no memory
  connected, item 0 ends at the guard of line 344 and \<^verbatim>\<open>execute\<close> is not called for it at
  all; only item 1 is executed, with its input alone.
\<close>

theorem memory_passed_to_execute_counterexample:
  \<open>call (fixture True JUndefined JUndefined [] JUndefined [JUndefined, JStr ''hello'']) [] GetOptionalMemory =
     Inr JUndefined \<and>
   fst (execute (fixture True JUndefined JUndefined [] JUndefined [JUndefined, JStr ''hello''])) =
     Inr [[\<lparr>json = [(''error'', JStr ''The "text" parameter is empty.'')], pairedItem = Some 0\<rparr>,
           \<lparr>json = [(''output'', JStr ''hello''), (''intermediateSteps'', JArr [])], pairedItem = None\<rparr>]] \<and>
   agent_calls (snd (execute (fixture True JUndefined JUndefined [] JUndefined [JUndefined, JStr ''hello'']))) =
     [NewN8nBinkAgent 0
        [JObj [], JStr ''toolsAgent'', JUndefined, JArr [], JUndefined,
         JObj [(''temperature'', JNum (1 / 2)), (''systemPrompt'', JStr ''You are an agent.'')],
         JObj [], JObj [], JObj []],
      NewN8nBinkAgent 1
        [JObj [], JStr ''toolsAgent'', JUndefined, JArr [], JUndefined,
         JObj [(''temperature'', JNum (1 / 2)), (''systemPrompt'', JStr ''You are an agent.'')],
         JObj [], JObj [], JObj []],
      AgentExecute 1 (JStr ''hello'') None]\<close>
  by code_simp

subsection \<open>C8\<close>

text \<open>
  C8, on the network configuration as the spec describes it.  The driver hands the
  three RPC URLs of the credentials, as they are, to \<^verbatim>\<open>getNetworksConfig\<close> for every item.
  A chain is in the configuration only with a URL that is a non-empty string; every
  other URL is left out when the configuration is built, and nothing is raised then.  A
  chain with an accepted URL is there when a plugin asks for it; a chain whose URL is
  missing, empty or no string is reported only at that moment.
\<close>

theorem rpc_urls_validated:
  "RPC_URLS creds =
     JObj [(''BNB'', bnbRpcUrl creds), (''ETH'', ethRpcUrl creds), (''SOL'', solRpcUrl creds)] \<and>
   (\<forall>hst st i h r evs. build_context hst st i h = (r, evs) \<and> 5 \<le> length evs \<longrightarrow>
      evs ! 4 = GetNetworksConfig (RPC_URLS (baseCredentials st))) \<and>
   (\<forall>chain network.
      map_of (getNetworksConfig (RPC_URLS creds)) chain = Some network \<longrightarrow>
      (\<exists>url. url \<noteq> [] \<and> network = JObj [(''rpcUrl'', JStr url)] \<and>
         map_of [(''BNB'', bnbRpcUrl creds), (''ETH'', ethRpcUrl creds), (''SOL'', solRpcUrl creds)] chain =
           Some (JStr url))) \<and>
   (\<forall>chain url.
      map_of [(''BNB'', bnbRpcUrl creds), (''ETH'', ethRpcUrl creds), (''SOL'', solRpcUrl creds)] chain =
        Some (JStr url) \<and> url \<noteq> [] \<longrightarrow>
      require_chain (getNetworksConfig (RPC_URLS creds)) chain = Inr (JObj [(''rpcUrl'', JStr url)])) \<and>
   (\<forall>chain.
      (\<forall>url. map_of [(''BNB'', bnbRpcUrl creds), (''ETH'', ethRpcUrl creds), (''SOL'', solRpcUrl creds)] chain =
               Some (JStr url) \<longrightarrow> url = []) \<longrightarrow>
      require_chain (getNetworksConfig (RPC_URLS creds)) chain =
        Inl (JsError (''no RPC URL for chain '' @ chain)))"
proof -
  have v: "valid_rpc_url u \<longleftrightarrow> (\<exists>url. u = JStr url \<and> url \<noteq> [])" for u
    by (cases u) simp_all
  have cfg: "map_of (getNetworksConfig (RPC_URLS creds)) chain =
      (case map_of [(''BNB'', bnbRpcUrl creds), (''ETH'', ethRpcUrl creds), (''SOL'', solRpcUrl creds)] chain of
         None \<Rightarrow> None
       | Some u \<Rightarrow> if valid_rpc_url u then Some (JObj [(''rpcUrl'', u)]) else None)" for chain
    by (simp add: RPC_URLS_def)
  show ?thesis
  proof (intro conjI allI impI)
    show "RPC_URLS creds =
       JObj [(''BNB'', bnbRpcUrl creds), (''ETH'', ethRpcUrl creds), (''SOL'', solRpcUrl creds)]"
      by (simp add: RPC_URLS_def)
  next
    fix hst :: host and st :: prepared and i h r evs
    assume "build_context hst st i h = (r, evs) \<and> 5 \<le> length evs"
    with build_context_networks[where hst=hst and st=st and i=i and h=h]
    show "evs ! 4 = GetNetworksConfig (RPC_URLS (baseCredentials st))" by simp
  next
    fix chain network
    assume "map_of (getNetworksConfig (RPC_URLS creds)) chain = Some network"
    then show "\<exists>url. url \<noteq> [] \<and> network = JObj [(''rpcUrl'', JStr url)] \<and>
         map_of [(''BNB'', bnbRpcUrl creds), (''ETH'', ethRpcUrl creds), (''SOL'', solRpcUrl creds)] chain =
           Some (JStr url)"
      unfolding cfg by (auto simp: v split: option.splits if_splits)
  next
    fix chain url
    assume "map_of [(''BNB'', bnbRpcUrl creds), (''ETH'', ethRpcUrl creds), (''SOL'', solRpcUrl creds)] chain =
        Some (JStr url) \<and> url \<noteq> []"
    then show "require_chain (getNetworksConfig (RPC_URLS creds)) chain = Inr (JObj [(''rpcUrl'', JStr url)])"
      unfolding require_chain_def cfg by (auto split: if_splits)
  next
    fix chain
    assume "\<forall>url. map_of [(''BNB'', bnbRpcUrl creds), (''ETH'', ethRpcUrl creds), (''SOL'', solRpcUrl creds)] chain =
               Some (JStr url) \<longrightarrow> url = []"
    then show "require_chain (getNetworksConfig (RPC_URLS creds)) chain =
        Inl (JsError (''no RPC URL for chain '' @ chain))"
      unfolding require_chain_def cfg by (auto simp: v split: option.splits if_splits)
  qed
qed

theorem rpc_urls_validated_witness:
  "getNetworksConfig (RPC_URLS \<lparr>bnbRpcUrl = JStr ''https://bsc.example'', ethRpcUrl = JStr [],
                                 solRpcUrl = JUndefined, mnemonic = JUndefined\<rparr>) =
     [(''BNB'', JObj [(''rpcUrl'', JStr ''https://bsc.example'')])] \<and>
   require_chain (getNetworksConfig (RPC_URLS \<lparr>bnbRpcUrl = JStr ''https://bsc.example'', ethRpcUrl = JStr [],
                                 solRpcUrl = JUndefined, mnemonic = JUndefined\<rparr>)) ''BNB'' =
     Inr (JObj [(''rpcUrl'', JStr ''https://bsc.example'')]) \<and>
   require_chain (getNetworksConfig (RPC_URLS \<lparr>bnbRpcUrl = JStr ''https://bsc.example'', ethRpcUrl = JStr [],
                                 solRpcUrl = JUndefined, mnemonic = JUndefined\<rparr>)) ''ETH'' =
     Inl (JsError ''no RPC URL for chain ETH'') \<and>
   require_chain (getNetworksConfig (RPC_URLS \<lparr>bnbRpcUrl = JStr ''https://bsc.example'', ethRpcUrl = JStr [],
                                 solRpcUrl = JUndefined, mnemonic = JUndefined\<rparr>)) ''SOL'' =
     Inl (JsError ''no RPC URL for chain SOL'')"
proof -
  let ?c = "\<lparr>bnbRpcUrl = JStr ''https://bsc.example'', ethRpcUrl = JStr [],
             solRpcUrl = JUndefined, mnemonic = JUndefined\<rparr>"
  note t = rpc_urls_validated[of ?c]
  have cfg: "getNetworksConfig (RPC_URLS ?c) = [(''BNB'', JObj [(''rpcUrl'', JStr ''https://bsc.example'')])]"
    by code_simp
  from t[THEN conjunct2, THEN conjunct2, THEN conjunct2, THEN conjunct1, rule_format,
      of "''BNB''" "''https://bsc.example''"]
  have bnb: "require_chain (getNetworksConfig (RPC_URLS ?c)) ''BNB'' =
     Inr (JObj [(''rpcUrl'', JStr ''https://bsc.example'')])" by simp
  from t[THEN conjunct2, THEN conjunct2, THEN conjunct2, THEN conjunct2, rule_format, of "''ETH''"]
  have eth: "require_chain (getNetworksConfig (RPC_URLS ?c)) ''ETH'' =
     Inl (JsError ''no RPC URL for chain ETH'')" by simp
  from t[THEN conjunct2, THEN conjunct2, THEN conjunct2, THEN conjunct2, rule_format, of "''SOL''"]
  have sol: "require_chain (getNetworksConfig (RPC_URLS ?c)) ''SOL'' =
     Inl (JsError ''no RPC URL for chain SOL'')" by simp
  from cfg bnb eth sol show ?thesis by blast
qed

subsection \<open>C9\<close>

text \<open>
  C9: let the agent of item \<open>j\<close> be constructed and \<^verbatim>\<open>getPromptInputByType\<close> return
  \<^verbatim>\<open>undefined\<close> for it.  Then the \<^verbatim>\<open>try\<close> block throws the NodeOperationError with the message
  \<^verbatim>\<open>The "text" parameter is empty.\<close> right after that call, and no call of the item is an
  execution of an agent.  With continue-on-fail the result of the item is that message,
  paired with \<open>j\<close>, and the loop goes on with item \<open>j + 1\<close>; without it the node throws the
  error and the batch ends.
\<close>

theorem empty_text_parameter:
  assumes "prepare hst = Inr st"
    and "j < length (getInputData hst)"
    and "run_items hst st [0..<j] [] [] = (Inr returnData, evs0)"
    and "construct_agent hst st j evs0 = (Inr (k, mem), evs1)"
    and "call hst (evs0 @ evs1) (GetPromptInputByType j ''text'' ''promptType'') = Inr JUndefined"
  shows
    \<open>try_block hst st j evs0 =
       (Inl (NodeOperationError ''The "text" parameter is empty.''),
        evs1 @ [GetPromptInputByType j ''text'' ''promptType'']) \<and>
     filter (is_execute_on k') (evs1 @ [GetPromptInputByType j ''text'' ''promptType'']) = [] \<and>
     (continueOnFail hst \<longrightarrow>
        (\<exists>r evs'.
           run_items hst st [Suc j..<length (getInputData hst)]
              (returnData @ [\<lparr>json = [(''error'', JStr ''The "text" parameter is empty.'')],
                               pairedItem = Some j\<rparr>])
              (evs0 @ (evs1 @ [GetPromptInputByType j ''text'' ''promptType'']) @
               [ConsoleLog (NodeOperationError ''The "text" parameter is empty.'')]) = (r, evs') \<and>
           execute hst =
             ((case r of Inl a \<Rightarrow> Inl a | Inr rs \<Rightarrow> Inr [rs]),
              evs0 @ (evs1 @ [GetPromptInputByType j ''text'' ''promptType'']) @
              ConsoleLog (NodeOperationError ''The "text" parameter is empty.'') # evs') \<and>
           (\<forall>rs. r = Inr rs \<longrightarrow>
              length rs = length (getInputData hst) \<and> take j rs = returnData \<and>
              rs ! j = \<lparr>json = [(''error'', JStr ''The "text" parameter is empty.'')],
                        pairedItem = Some j\<rparr>))) \<and>
     (\<not> continueOnFail hst \<longrightarrow>
        execute hst =
          (Inl (NodeOperationError ''The "text" parameter is empty.''),
           evs0 @ (evs1 @ [GetPromptInputByType j ''text'' ''promptType'']) @
           [ConsoleLog (NodeOperationError ''The "text" parameter is empty.'')]))\<close>
proof -
  let ?e = \<open>NodeOperationError ''The "text" parameter is empty.''\<close>
  let ?evs = "evs1 @ [GetPromptInputByType j ''text'' ''promptType'']"
  from try_block_constructed[OF assms(4) run_agent_undefined[OF assms(5)]]
  have tb: "try_block hst st j evs0 = (Inl ?e, ?evs)" by simp
  have none: "filter (is_execute_on k') ?evs = []"
    using construct_agent_no_execute[OF assms(4)] by simp
  have item: \<open>error_result (JStr ''The "text" parameter is empty.'') j =
      \<lparr>json = [(''error'', JStr ''The "text" parameter is empty.'')], pairedItem = Some j\<rparr>\<close>
    by (simp add: error_result_def js_or_def)
  have em: \<open>error_message ?e = Inr (JStr ''The "text" parameter is empty.'')\<close> by simp
  have go: \<open>\<exists>r evs'.
           run_items hst st [Suc j..<length (getInputData hst)]
              (returnData @ [\<lparr>json = [(''error'', JStr ''The "text" parameter is empty.'')],
                               pairedItem = Some j\<rparr>])
              (evs0 @ ?evs @ [ConsoleLog ?e]) = (r, evs') \<and>
           execute hst =
             ((case r of Inl a \<Rightarrow> Inl a | Inr rs \<Rightarrow> Inr [rs]), evs0 @ ?evs @ ConsoleLog ?e # evs') \<and>
           (\<forall>rs. r = Inr rs \<longrightarrow>
              length rs = length (getInputData hst) \<and> take j rs = returnData \<and>
              rs ! j = \<lparr>json = [(''error'', JStr ''The "text" parameter is empty.'')],
                        pairedItem = Some j\<rparr>)\<close>
    if "continueOnFail hst"
    using execute_failing_item_continue[OF assms(1,2,3) tb that em] unfolding item .
  have stop: "execute hst = (Inl ?e, evs0 @ ?evs @ [ConsoleLog ?e])" if "\<not> continueOnFail hst"
    using execute_failing_item_abort[OF assms(1,2,3) tb that] .
  from tb none go stop show ?thesis by simp
qed

theorem empty_text_parameter_witness:
  \<open>fst (execute (fixture False JUndefined JUndefined [] JUndefined [JStr ''hello'', JUndefined, JStr ''bye''])) =
     Inl (NodeOperationError ''The "text" parameter is empty.'') \<and>
   agent_calls (snd (execute (fixture False JUndefined JUndefined [] JUndefined
                                [JStr ''hello'', JUndefined, JStr ''bye'']))) =
     [NewN8nBinkAgent 0
        [JObj [], JStr ''toolsAgent'', JUndefined, JArr [], JUndefined,
         JObj [(''temperature'', JNum (1 / 2)), (''systemPrompt'', JStr ''You are an agent.'')],
         JObj [], JObj [], JObj []],
      AgentExecute 0 (JStr ''hello'') None,
      NewN8nBinkAgent 1
        [JObj [], JStr ''toolsAgent'', JUndefined, JArr [], JUndefined,
         JObj [(''temperature'', JNum (1 / 2)), (''systemPrompt'', JStr ''You are an agent.'')],
         JObj [], JObj [], JObj []]] \<and>
   (\<exists>rs. fst (execute (fixture True JUndefined JUndefined [] JUndefined [JStr ''hello'', JUndefined, JStr ''bye''])) =
             Inr [rs] \<and>
          length rs = 3 \<and>
          rs ! 1 = \<lparr>json = [(''error'', JStr ''The "text" parameter is empty.'')], pairedItem = Some 1\<rparr>)\<close>
proof -
  let ?stop = "fixture False JUndefined JUndefined [] JUndefined [JStr ''hello'', JUndefined, JStr ''bye'']"
  let ?go = "fixture True JUndefined JUndefined [] JUndefined [JStr ''hello'', JUndefined, JStr ''bye'']"
  let ?rd = "[\<lparr>json = [(''output'', JStr ''hello''), (''intermediateSteps'', JArr [])], pairedItem = None\<rparr>]"
  let ?e = \<open>NodeOperationError ''The "text" parameter is empty.''\<close>
  have p1: "prepare ?stop = Inr plain_prepared" and p2: "prepare ?go = Inr plain_prepared"
    by code_simp+
  have n1: "1 < length (getInputData ?stop)" and n2: "1 < length (getInputData ?go)"
    by (simp_all add: fixture_def)
  have "fst (run_items ?stop plain_prepared [0..<1] [] []) = Inr ?rd"
    by code_simp
  then have b1: "run_items ?stop plain_prepared [0..<1] [] [] =
                   (Inr ?rd, snd (run_items ?stop plain_prepared [0..<1] [] []))"
    by (rule pair_fst_snd)
  have "fst (construct_agent ?stop plain_prepared 1 (snd (run_items ?stop plain_prepared [0..<1] [] []))) =
          Inr (1, JUndefined)"
    by code_simp
  then have a1: "construct_agent ?stop plain_prepared 1 (snd (run_items ?stop plain_prepared [0..<1] [] [])) =
      (Inr (1, JUndefined),
       snd (construct_agent ?stop plain_prepared 1 (snd (run_items ?stop plain_prepared [0..<1] [] []))))"
    by (rule pair_fst_snd)
  have q1: "call ?stop h (GetPromptInputByType 1 ''text'' ''promptType'') = Inr JUndefined" for h
    by (simp add: fixture_def)
  have "fst (run_items ?go plain_prepared [0..<1] [] []) = Inr ?rd"
    by code_simp
  then have b2: "run_items ?go plain_prepared [0..<1] [] [] =
                   (Inr ?rd, snd (run_items ?go plain_prepared [0..<1] [] []))"
    by (rule pair_fst_snd)
  have "fst (construct_agent ?go plain_prepared 1 (snd (run_items ?go plain_prepared [0..<1] [] []))) =
          Inr (1, JUndefined)"
    by code_simp
  then have a2: "construct_agent ?go plain_prepared 1 (snd (run_items ?go plain_prepared [0..<1] [] [])) =
      (Inr (1, JUndefined),
       snd (construct_agent ?go plain_prepared 1 (snd (run_items ?go plain_prepared [0..<1] [] []))))"
    by (rule pair_fst_snd)
  have q2: "call ?go h (GetPromptInputByType 1 ''text'' ''promptType'') = Inr JUndefined" for h
    by (simp add: fixture_def)
  have c1: "\<not> continueOnFail ?stop" and c2: "continueOnFail ?go"
    by (simp_all add: fixture_def)
  note s = empty_text_parameter[OF p1 n1 b1 a1 q1]
  note g = empty_text_parameter[OF p2 n2 b2 a2 q2]
  from s c1 have "fst (execute ?stop) = Inl ?e" by simp
  moreover have "agent_calls (snd (execute ?stop)) =
     [NewN8nBinkAgent 0
        [JObj [], JStr ''toolsAgent'', JUndefined, JArr [], JUndefined,
         JObj [(''temperature'', JNum (1 / 2)), (''systemPrompt'', JStr ''You are an agent.'')],
         JObj [], JObj [], JObj []],
      AgentExecute 0 (JStr ''hello'') None,
      NewN8nBinkAgent 1
        [JObj [], JStr ''toolsAgent'', JUndefined, JArr [], JUndefined,
         JObj [(''temperature'', JNum (1 / 2)), (''systemPrompt'', JStr ''You are an agent.'')],
         JObj [], JObj [], JObj []]]"
    by code_simp
  moreover have "\<exists>rs. fst (execute ?go) = Inr [rs] \<and> length rs = 3 \<and>
          rs ! 1 = \<lparr>json = [(''error'', JStr ''The \"text\" parameter is empty.'')], pairedItem = Some 1\<rparr>"
  proof -
    from g[THEN conjunct2, THEN conjunct2, THEN conjunct1] c2 obtain res evs' where
      ex: "fst (execute ?go) = (case res of Inl a \<Rightarrow> Inl a | Inr rs \<Rightarrow> Inr [rs])"
      and fin: "\<forall>rs. res = Inr rs \<longrightarrow> length rs = length (getInputData ?go) \<and>
         rs ! 1 = \<lparr>json = [(''error'', JStr ''The \"text\" parameter is empty.'')], pairedItem = Some 1\<rparr>"
      by force
    have "fst (execute ?go) =
          Inr [[\<lparr>json = [(''output'', JStr ''hello''), (''intermediateSteps'', JArr [])], pairedItem = None\<rparr>,
                \<lparr>json = [(''error'', JStr ''The \"text\" parameter is empty.'')], pairedItem = Some 1\<rparr>,
                \<lparr>json = [(''output'', JStr ''bye''), (''intermediateSteps'', JArr [])], pairedItem = None\<rparr>]]"
      by code_simp
    with ex obtain rs where res: "res = Inr rs" by (cases res) auto
    with fin have "length rs = length (getInputData ?go)"
      and at: "rs ! 1 = \<lparr>json = [(''error'', JStr ''The \"text\" parameter is empty.'')], pairedItem = Some 1\<rparr>"
      by blast+
    then have "length rs = 3" by (simp add: fixture_def)
    with ex res at show ?thesis by simp
  qed
  ultimately show ?thesis by blast
qed

subsection \<open>C10\<close>

text \<open>
  C10: the filter drops \<^verbatim>\<open>undefined\<close> and nothing else.  The handle of every tool whose
  plugin is not \<^verbatim>\<open>undefined\<close> (\<^verbatim>\<open>null\<close>, \<^verbatim>\<open>false\<close>, \<^verbatim>\<open>0\<close> and the empty string included)
  is in the list to register, and the loop of lines 333-335 calls \<^verbatim>\<open>registerPlugin\<close> with
  it as soon as the registrations before it have returned.
\<close>

theorem falsy_plugin_handles_are_registered:
  assumes "t \<in> set toolsWithPlugins" and "plugin t \<noteq> JUndefined"
  shows "plugin t \<in> set (snd (tools_and_plugins toolsWithPlugins)) \<and>
         JUndefined \<notin> set (snd (tools_and_plugins toolsWithPlugins)) \<and>
         (\<exists>before after.
            snd (tools_and_plugins toolsWithPlugins) = before @ plugin t # after \<and>
            (\<forall>hst k h evs. registerPlugins hst k before h = (Inr (), evs) \<longrightarrow>
               (\<exists>r evs'. registerPlugins hst k (snd (tools_and_plugins toolsWithPlugins)) h =
                           (r, evs @ RegisterPlugin k (plugin t) # evs'))))"
proof -
  let ?ps = "snd (tools_and_plugins toolsWithPlugins)"
  from assms have mem: "plugin t \<in> set ?ps" by (auto simp: tools_and_plugins_eq)
  then obtain before after where split: "?ps = before @ plugin t # after"
    by (auto dest: split_list)
  have notin: "JUndefined \<notin> set ?ps" by (simp add: tools_and_plugins_eq)
  have reg: "\<exists>r evs'. registerPlugins hst k ?ps h = (r, evs @ RegisterPlugin k (plugin t) # evs')"
    if ok: "registerPlugins hst k before h = (Inr (), evs)" for hst k h evs
  proof -
    from registerPlugins_first[of hst k "plugin t" after "h @ evs"] obtain r evs' where
      "registerPlugins hst k (plugin t # after) (h @ evs) = (r, RegisterPlugin k (plugin t) # evs')"
      by blast
    with ok show ?thesis
      unfolding split by (simp add: registerPlugins_append)
  qed
  from mem notin split reg show ?thesis by blast
qed

theorem falsy_plugin_handles_are_registered_witness:
  "JNull \<in> set (snd (tools_and_plugins three_tools)) \<and>
   JUndefined \<notin> set (snd (tools_and_plugins three_tools)) \<and>
   agent_calls (snd (execute (fixture False JUndefined JUndefined three_tools JUndefined [JStr ''hello'']))) =
     [NewN8nBinkAgent 0
        [JObj [], JStr ''toolsAgent'', JUndefined,
         JArr [JStr ''swap'', JStr ''clock'', JStr ''bridge'', JStr ''quote''], JUndefined,
         JObj [(''temperature'', JNum (1 / 2)), (''systemPrompt'', JStr ''You are an agent.'')],
         JObj [], JObj [], JObj []],
      RegisterPlugin 0 (JObj [(''name'', JStr ''swap'')]),
      RegisterPlugin 0 JNull,
      RegisterPlugin 0 (JObj [(''name'', JStr ''swap'')]),
      AgentExecute 0 (JStr ''hello'') None]"
proof -
  have t: "\<lparr>tool = JStr ''bridge'', plugin = JNull\<rparr> \<in> set three_tools"
    by (simp add: three_tools_def)
  have run: "agent_calls (snd (execute (fixture False JUndefined JUndefined three_tools JUndefined [JStr ''hello'']))) =
     [NewN8nBinkAgent 0
        [JObj [], JStr ''toolsAgent'', JUndefined,
         JArr [JStr ''swap'', JStr ''clock'', JStr ''bridge'', JStr ''quote''], JUndefined,
         JObj [(''temperature'', JNum (1 / 2)), (''systemPrompt'', JStr ''You are an agent.'')],
         JObj [], JObj [], JObj []],
      RegisterPlugin 0 (JObj [(''name'', JStr ''swap'')]),
      RegisterPlugin 0 JNull,
      RegisterPlugin 0 (JObj [(''name'', JStr ''swap'')]),
      AgentExecute 0 (JStr ''hello'') None]"
    by code_simp
  from falsy_plugin_handles_are_registered[OF t] run show ?thesis by simp
qed

end
